theory Spec2Isabelle
  imports Complex_Main "HOL-Library.Sublist"
begin

section \<open>Tensors\<close>

text \<open>
  The training step of \<^verbatim>\<open>stable_baselines3/a2c/a2c.py\<close> (\<^verbatim>\<open>A2C.train\<close>) works on
  torch tensors. A tensor is modelled as the list of its elements over the real numbers:
  the batch tensors of the rollout buffer are one-dimensional, a parameter tensor is read
  flattened, and the shape of a tensor is its length. Rounding, infinities and NaN of the
  floating-point types are not modelled.
\<close>

type_synonym tensor = "real list"

datatype error = AttributeError | RuntimeError | TypeError

text \<open>\<^verbatim>\<open>t.mean()\<close>, \<^verbatim>\<open>th.mean(t)\<close>.\<close>

definition mean :: "tensor \<Rightarrow> real" where
  "mean t = sum_list t / real (length t)"

text \<open>\<^verbatim>\<open>t.var()\<close> and \<^verbatim>\<open>t.std()\<close>: torch applies Bessel's correction by default.\<close>

definition var :: "tensor \<Rightarrow> real" where
  "var t = sum_list (map (\<lambda>x. (x - mean t)\<^sup>2) t) / (real (length t) - 1)"

definition std :: "tensor \<Rightarrow> real" where
  "std t = sqrt (var t)"

text \<open>
  An element-wise binary operation of torch on one-dimensional tensors: equal shapes
  combine element by element, a tensor of one element is broadcast against the other,
  and any other pair of shapes raises \<^verbatim>\<open>RuntimeError\<close>.
\<close>

definition broadcast2 :: "(real \<Rightarrow> real \<Rightarrow> real) \<Rightarrow> tensor \<Rightarrow> tensor \<Rightarrow> error + tensor" where
  "broadcast2 f a b =
     (if length a = length b then Inr (map2 f a b)
      else if length a = 1 then Inr (map (f (hd a)) b)
      else if length b = 1 then Inr (map (\<lambda>x. f x (hd b)) a)
      else Inl RuntimeError)"

text \<open>\<^verbatim>\<open>F.mse_loss(input, target)\<close> and \<^verbatim>\<open>th.nn.MSELoss()(input, target)\<close>, with the
  default reduction \<^verbatim>\<open>mean\<close>: shapes that differ are broadcast (with a warning only).\<close>

definition mse_loss :: "tensor \<Rightarrow> tensor \<Rightarrow> error + real" where
  "mse_loss inp target =
     (case broadcast2 (-) inp target of
        Inl e \<Rightarrow> Inl e
      | Inr d \<Rightarrow> Inr (mean (map (\<lambda>x. x\<^sup>2) d)))"

section \<open>The losses of one pass (a2c.py, lines 158 to 179)\<close>

record 'obs rollout_data =
  observations :: 'obs
  actions :: tensor
  advantages :: tensor
  returns :: tensor

record config =
  optimize_choice :: string
  rho :: real
  normalize_advantage :: bool
  ent_coef :: real
  vf_coef :: real
  max_grad_norm :: real
  set_to_none :: bool

record losses =
  policy_loss :: real
  value_loss :: real
  entropy_loss :: real
  loss :: real

text \<open>Line 164: \<^verbatim>\<open>(advantages - advantages.mean()) / (advantages.std() + 1e-8)\<close>.\<close>

definition normalize_adv :: "tensor \<Rightarrow> tensor" where
  "normalize_adv a = map (\<lambda>x. (x - mean a) / (std a + 1 / 10 ^ 8)) a"

text \<open>The advantages of the scenario of section 8 of the specification: ten
  transitions.\<close>

definition adv10 :: tensor where
  "adv10 = [1, 1, 1, 1, 1, - 1, - 1, - 1, - 1, - 1]"

text \<open>
  The argument \<open>ev\<close> is what \<^verbatim>\<open>self.policy.evaluate_actions\<close> returned: the
  values (already flattened), the log-probabilities and the entropy, which is
  \<^verbatim>\<open>None\<close> when the distribution has no analytical entropy. The source repeats
  these lines for the second pass of the SAM and HERO branches (lines 198 to 219 and 251
  to 272), with \<^verbatim>\<open>_new\<close> appended to the names.
\<close>

definition compute_losses ::
  "config \<Rightarrow> tensor \<times> tensor \<times> tensor option \<Rightarrow> 'obs rollout_data \<Rightarrow> error + losses" where
  "compute_losses cfg ev rollout =
     (case ev of (vals, log_prob, entropy) \<Rightarrow>
        let adv = (if normalize_advantage cfg then normalize_adv (advantages rollout)
                   else advantages rollout)
        in case broadcast2 (*) adv log_prob of
             Inl e \<Rightarrow> Inl e
           | Inr weighted \<Rightarrow>
               let pl = - mean weighted
               in case mse_loss (returns rollout) vals of
                    Inl e \<Rightarrow> Inl e
                  | Inr vl \<Rightarrow>
                      let el = (case entropy of
                                  None \<Rightarrow> - mean (map uminus log_prob)
                                | Some ent \<Rightarrow> - mean ent)
                      in Inr \<lparr>policy_loss = pl, value_loss = vl, entropy_loss = el,
                              loss = pl + ent_coef cfg * el + vf_coef cfg * vl\<rparr>)"

section \<open>Parameters and the autograd interface\<close>

text \<open>
  A parameter of the policy, as \<^verbatim>\<open>named_parameters()\<close> lists it: its name, its value
  (\<^verbatim>\<open>param.data\<close>) and its gradient (\<^verbatim>\<open>param.grad\<close>, which is \<^verbatim>\<open>None\<close> until a
  backward pass reaches the parameter).
\<close>

record param =
  pname :: string
  data :: tensor
  grad :: "tensor option"

text \<open>
  The policy network, automatic differentiation and the optimizers are library code
  (torch, \<^verbatim>\<open>stable_baselines3.common\<close>); the step sees them through this interface, for
  the batch and the coefficients of the step:
  \<^item> \<open>evaluate_actions w obs acts\<close> is \<^verbatim>\<open>self.policy.evaluate_actions\<close> at the parameter
    values \<open>w\<close>: the values, the log-probabilities and the entropy (or \<^verbatim>\<open>None\<close>);
  \<^item> \<open>loss_grad w\<close> is the gradient of the loss of lines 158 to 179 at the parameter
    values \<open>w\<close>, one entry for each parameter, \<^verbatim>\<open>None\<close> for a parameter the loss does
    not depend on;
  \<^item> \<open>grad_vjp w c\<close> is what backpropagation through the differentiable gradients of
    \<^verbatim>\<open>th.autograd.grad(..., create_graph=True)\<close> at \<open>w\<close> gives each parameter when the
    gradients carry the cotangents \<open>c\<close> (a product with the Hessian of the loss);
    \<^verbatim>\<open>None\<close> in \<open>c\<close> marks a gradient the differentiated scalar does not use;
  \<^item> \<open>optimizer_step\<close> is \<^verbatim>\<open>self.policy.optimizer.step()\<close> of the base branch and
    \<open>sgd_step\<close> is the step of the \<^verbatim>\<open>th.optim.SGD\<close> that \<^verbatim>\<open>SAM\<close> wraps.
\<close>

record 'obs policy =
  evaluate_actions :: "tensor list \<Rightarrow> 'obs \<Rightarrow> tensor \<Rightarrow> tensor \<times> tensor \<times> tensor option"
  loss_grad :: "tensor list \<Rightarrow> tensor option list"
  grad_vjp :: "tensor list \<Rightarrow> tensor option list \<Rightarrow> tensor option list"
  optimizer_step :: "param list \<Rightarrow> param list"
  sgd_step :: "param list \<Rightarrow> param list"

text \<open>Lines 16 and 19 of a2c.py.\<close>

definition adaptive :: bool where
  "adaptive = True"

definition lambda_hero :: real where
  "lambda_hero = 1"

text \<open>
  A backward pass adds the gradient it computes to \<^verbatim>\<open>param.grad\<close>; a parameter it does
  not reach keeps what it had.
\<close>

definition accumulate :: "tensor option \<Rightarrow> tensor option \<Rightarrow> tensor option" where
  "accumulate old g =
     (case g of
        None \<Rightarrow> old
      | Some t \<Rightarrow> (case old of None \<Rightarrow> Some t | Some u \<Rightarrow> Some (map2 (+) u t)))"

fun backward :: "tensor option list \<Rightarrow> param list \<Rightarrow> param list" where
  "backward gs [] = []"
| "backward [] (p # ps) = p # ps"
| "backward (g # gs) (p # ps) = p\<lparr>grad := accumulate (grad p) g\<rparr> # backward gs ps"

text \<open>\<^verbatim>\<open>optimizer.zero_grad(set_to_none)\<close>: the gradients become \<^verbatim>\<open>None\<close>, or are
  filled with zeros where they exist. The default of \<^verbatim>\<open>set_to_none\<close> depends on the
  version of torch, so it is a field of the configuration.\<close>

definition zero_grad :: "bool \<Rightarrow> param list \<Rightarrow> param list" where
  "zero_grad to_none ps =
     map (\<lambda>p. p\<lparr>grad := (if to_none then None else map_option (map (\<lambda>x. 0)) (grad p))\<rparr>) ps"

text \<open>Lines 186 to 189: \<^verbatim>\<open>param.grad.data.clone().detach()\<close> of every parameter; the
  attribute access fails on a gradient that is \<^verbatim>\<open>None\<close>.\<close>

fun clone_grads :: "param list \<Rightarrow> error + tensor list" where
  "clone_grads [] = Inr []"
| "clone_grads (p # ps) =
     (case grad p of
        None \<Rightarrow> Inl AttributeError
      | Some g \<Rightarrow> (case clone_grads ps of Inl e \<Rightarrow> Inl e | Inr gs \<Rightarrow> Inr (g # gs)))"

text \<open>Line 222: \<^verbatim>\<open>th.autograd.grad(loss_new, parameters, retain_graph=True,
  create_graph=True)\<close>. Without \<^verbatim>\<open>allow_unused\<close> it raises \<^verbatim>\<open>RuntimeError\<close> for a parameter
  the loss does not use.\<close>

fun autograd_grad :: "tensor option list \<Rightarrow> error + tensor list" where
  "autograd_grad [] = Inr []"
| "autograd_grad (None # gs) = Inl RuntimeError"
| "autograd_grad (Some g # gs) =
     (case autograd_grad gs of Inl e \<Rightarrow> Inl e | Inr ts \<Rightarrow> Inr (g # ts))"

section \<open>Clipping (torch.nn.utils.clip\_grad\_norm\_)\<close>

text \<open>The norm of all gradients together; a parameter without a gradient adds nothing.\<close>

definition sum_squares :: "tensor \<Rightarrow> real" where
  "sum_squares t = sum_list (map (\<lambda>x. x\<^sup>2) t)"

definition total_norm :: "param list \<Rightarrow> real" where
  "total_norm ps =
     sqrt (sum_list (map (\<lambda>p. case grad p of None \<Rightarrow> 0 | Some g \<Rightarrow> sum_squares g) ps))"

definition clip_grad_norm :: "real \<Rightarrow> param list \<Rightarrow> param list" where
  "clip_grad_norm max_norm ps =
     (let clip_coef = max_norm / (total_norm ps + 1 / 10 ^ 6);
          clip_coef_clamped = min clip_coef 1
      in map (\<lambda>p. p\<lparr>grad := map_option (map (\<lambda>x. x * clip_coef_clamped)) (grad p)\<rparr>) ps)"

section \<open>The SAM optimizer\<close>

text \<open>
  Modelled from the spec: the class \<^verbatim>\<open>SAM\<close> of \<^verbatim>\<open>HERO/sam.py\<close>, which a2c.py imports,
  is not among the sources. Section 4.2 of the specification gives \<^verbatim>\<open>first_step\<close>: with
  \<open>scale = rho / (norm + 1e-12)\<close>, where the norm is the global L2 norm of the gradients,
  each multiplied by the absolute value of its parameter when \<open>adaptive\<close> is set, every
  parameter moves by \<open>scale * gradient * (|param| if adaptive else 1)\<close>; then the gradients
  are zeroed. The values before the move are saved. \<^verbatim>\<open>second_step\<close> puts the saved
  values back, runs the step of the base optimizer on the gradients it finds, and zeroes
  the gradients. A parameter without a gradient is left where it is.
\<close>

definition scaled_grad :: "bool \<Rightarrow> param \<Rightarrow> tensor" where
  "scaled_grad adp p =
     (case grad p of
        None \<Rightarrow> []
      | Some g \<Rightarrow> if adp then map2 (\<lambda>w x. \<bar>w\<bar> * x) (data p) g else g)"

definition grad_norm :: "bool \<Rightarrow> param list \<Rightarrow> real" where
  "grad_norm adp ps = sqrt (sum_list (map (\<lambda>p. sum_squares (scaled_grad adp p)) ps))"

definition perturb :: "real \<Rightarrow> bool \<Rightarrow> param \<Rightarrow> param" where
  "perturb scale adp p =
     (case grad p of
        None \<Rightarrow> p
      | Some g \<Rightarrow> p\<lparr>data := map2 (+) (data p) (map (\<lambda>x. scale * x) (scaled_grad adp p))\<rparr>)"

definition first_step :: "real \<Rightarrow> bool \<Rightarrow> bool \<Rightarrow> bool \<Rightarrow> param list \<Rightarrow> param list \<times> tensor list" where
  "first_step rh adp zg to_none ps =
     (let scale = rh / (grad_norm adp ps + 1 / 10 ^ 12);
          moved = map (perturb scale adp) ps
      in (if zg then zero_grad to_none moved else moved, map data ps))"

fun restore :: "tensor list \<Rightarrow> param list \<Rightarrow> param list" where
  "restore old [] = []"
| "restore [] (p # ps) = p # ps"
| "restore (v # old) (p # ps) = p\<lparr>data := v\<rparr> # restore old ps"

definition second_step ::
  "(param list \<Rightarrow> param list) \<Rightarrow> bool \<Rightarrow> bool \<Rightarrow> tensor list \<Rightarrow> param list \<Rightarrow> param list" where
  "second_step base_step zg to_none old_p ps =
     (let stepped = base_step (restore old_p ps)
      in if zg then zero_grad to_none stepped else stepped)"

section \<open>The curvature loss of HERO (a2c.py, lines 220 to 234)\<close>

text \<open>
  \<^verbatim>\<open>hero_loss\<close> starts as the Python float \<^verbatim>\<open>0.\<close> and becomes a tensor with the first
  term added to it. The tensor keeps, besides its value, the cotangent that its backward
  pass hands to each differentiable gradient it was built from (indexed by parameter).
\<close>

datatype hero_loss = PyFloat real | HeroTensor real "nat \<Rightarrow> tensor option"

fun hero_value :: "hero_loss \<Rightarrow> real" where
  "hero_value (PyFloat x) = x"
| "hero_value (HeroTensor x c) = x"

text \<open>The derivative of \<^verbatim>\<open>MSELoss()(input, target)\<close> in its input, for shapes that the
  criterion accepts.\<close>

definition mse_loss_grad :: "tensor \<Rightarrow> tensor \<Rightarrow> tensor" where
  "mse_loss_grad inp target =
     (if length inp = length target
      then map2 (\<lambda>x y. 2 * (x - y) / real (length inp)) inp target
      else if length inp = 1
      then [sum_list (map (\<lambda>y. 2 * (hd inp - y) / real (length target)) target)]
      else map (\<lambda>x. 2 * (x - hd target) / real (length inp)) inp)"

text \<open>\<^verbatim>\<open>hero_loss += lambda_hero * criterion_hero(grad_copy, grad)\<close> for the parameter of
  index \<open>i\<close>.\<close>

definition hero_add :: "hero_loss \<Rightarrow> nat \<Rightarrow> tensor \<Rightarrow> tensor \<Rightarrow> error + hero_loss" where
  "hero_add h i grad_copy gr =
     (case mse_loss grad_copy gr of
        Inl e \<Rightarrow> Inl e
      | Inr m \<Rightarrow>
          let c = map (\<lambda>x. lambda_hero * x) (mse_loss_grad grad_copy gr)
          in Inr (case h of
                    PyFloat x \<Rightarrow> HeroTensor (x + lambda_hero * m) (Map.empty(i \<mapsto> c))
                  | HeroTensor x cts \<Rightarrow>
                      HeroTensor (x + lambda_hero * m) (cts(i := accumulate (cts i) (Some c)))))"

text \<open>
  Lines 231 to 234, the inner loop over \<^verbatim>\<open>enumerate(zip(loss_grads, loss_grads_new))\<close>.
  Its variable \<^verbatim>\<open>grad\<close> is the detached gradient of the first pass and \<^verbatim>\<open>grad_copy\<close> the
  differentiable gradient of the second. Both are tensors, so the test of line 233,
  \<^verbatim>\<open>grad != None and grad_copy != None\<close>, compares a tensor with \<^verbatim>\<open>None\<close>.
\<close>

fun hero_inner :: "nat \<Rightarrow> nat \<Rightarrow> (tensor \<times> tensor) list \<Rightarrow> hero_loss \<Rightarrow> error + hero_loss" where
  "hero_inner index_param index [] h = Inr h"
| "hero_inner index_param index ((gr, grad_copy) # rest) h =
     (if index_param = index
      then (if Some gr \<noteq> None \<and> Some grad_copy \<noteq> None
            then (case hero_add h index_param grad_copy gr of
                    Inl e \<Rightarrow> Inl e
                  | Inr h' \<Rightarrow> hero_inner index_param (Suc index) rest h')
            else hero_inner index_param (Suc index) rest h)
      else hero_inner index_param (Suc index) rest h)"

text \<open>Line 230: \<^verbatim>\<open>'bias' not in name and 'bn' not in name\<close>.\<close>

definition weight_filter :: "string \<Rightarrow> bool" where
  "weight_filter name \<longleftrightarrow> \<not> sublist ''bias'' name \<and> \<not> sublist ''bn'' name"

text \<open>Lines 229 to 234, the outer loop over \<^verbatim>\<open>enumerate(named_parameters())\<close>.\<close>

fun hero_outer ::
  "nat \<Rightarrow> string list \<Rightarrow> (tensor \<times> tensor) list \<Rightarrow> hero_loss \<Rightarrow> error + hero_loss" where
  "hero_outer index_param [] zs h = Inr h"
| "hero_outer index_param (name # names) zs h =
     (if weight_filter name
      then (case hero_inner index_param 0 zs h of
              Inl e \<Rightarrow> Inl e
            | Inr h' \<Rightarrow> hero_outer (Suc index_param) names zs h')
      else hero_outer (Suc index_param) names zs h)"

definition hero_loop :: "string list \<Rightarrow> tensor list \<Rightarrow> tensor list \<Rightarrow> error + hero_loss" where
  "hero_loop names loss_grads loss_grads_new =
     hero_outer 0 names (zip loss_grads loss_grads_new) (PyFloat 0)"

text \<open>
  The curvature term in the words of section 4.3 of the specification, to compare the
  loops of the source with: for every parameter whose name passes the filter, add
  \<open>lambda_hero * mean_squared_error(live_grad, detached_grad)\<close> to a running sum.
\<close>

fun spec_curvature_loss :: "(string \<times> tensor \<times> tensor) list \<Rightarrow> error + real" where
  "spec_curvature_loss [] = Inr 0"
| "spec_curvature_loss ((name, detached_grad, live_grad) # rest) =
     (if weight_filter name
      then (case mse_loss live_grad detached_grad of
              Inl e \<Rightarrow> Inl e
            | Inr m \<Rightarrow> (case spec_curvature_loss rest of
                          Inl e \<Rightarrow> Inl e
                        | Inr s \<Rightarrow> Inr (lambda_hero * m + s)))
      else spec_curvature_loss rest)"

text \<open>The value of \<^verbatim>\<open>hero_loss\<close> after the loops (or the error they raise).\<close>

definition hero_term :: "string list \<Rightarrow> tensor list \<Rightarrow> tensor list \<Rightarrow> error + real" where
  "hero_term names loss_grads loss_grads_new =
     (case hero_loop names loss_grads loss_grads_new of
        Inl e \<Rightarrow> Inl e
      | Inr h \<Rightarrow> Inr (hero_value h))"

text \<open>Line 237, \<^verbatim>\<open>param.grad += grad\<close>: an in-place addition keeps the shape of its left
  side, and fails on a gradient that is \<^verbatim>\<open>None\<close>.\<close>

definition iadd :: "tensor \<Rightarrow> tensor \<Rightarrow> error + tensor" where
  "iadd a b =
     (if length a = length b then Inr (map2 (+) a b)
      else if length b = 1 then Inr (map (\<lambda>x. x + hd b) a)
      else Inl RuntimeError)"

text \<open>Lines 236 and 237. The loop changes the gradients one parameter after the other,
  so an error leaves the gradients before it changed.\<close>

fun add_grads :: "param list \<Rightarrow> tensor list \<Rightarrow> error \<times> param list + param list" where
  "add_grads [] gs = Inr []"
| "add_grads (p # ps) [] = Inr (p # ps)"
| "add_grads (p # ps) (g # gs) =
     (case grad p of
        None \<Rightarrow> Inl (TypeError, p # ps)
      | Some pg \<Rightarrow>
          (case iadd pg g of
             Inl e \<Rightarrow> Inl (e, p # ps)
           | Inr s \<Rightarrow>
               (case add_grads ps gs of
                  Inl (e, ps') \<Rightarrow> Inl (e, p\<lparr>grad := Some s\<rparr> # ps')
                | Inr ps' \<Rightarrow> Inr (p\<lparr>grad := Some s\<rparr> # ps'))))"

section \<open>The training step (A2C.train)\<close>

text \<open>The losses of a pass at the parameter values of \<open>ps\<close>.\<close>

definition pass_losses ::
  "'obs policy \<Rightarrow> config \<Rightarrow> 'obs rollout_data \<Rightarrow> param list \<Rightarrow> error + losses" where
  "pass_losses pol cfg rollout ps =
     compute_losses cfg
       (evaluate_actions pol (map data ps) (observations rollout) (actions rollout)) rollout"

text \<open>
  The HERO branch up to line 191: the first backward pass, the detached copies
  \<^verbatim>\<open>loss_grads\<close>, and \<^verbatim>\<open>first_step(zero_grad=True)\<close>. The result holds the parameters,
  the values that SAM saved and \<^verbatim>\<open>loss_grads\<close>. An error carries the parameters as they
  are when it is raised.
\<close>

definition hero_first_pass ::
  "'obs policy \<Rightarrow> config \<Rightarrow> param list \<Rightarrow>
   error \<times> param list + param list \<times> tensor list \<times> tensor list" where
  "hero_first_pass pol cfg ps =
     (let ps1 = backward (loss_grad pol (map data ps)) ps
      in case clone_grads ps1 of
           Inl e \<Rightarrow> Inl (e, ps1)
         | Inr loss_grads \<Rightarrow>
             (case first_step (rho cfg) adaptive True (set_to_none cfg) ps1 of
                (ps2, old_p) \<Rightarrow> Inr (ps2, old_p, loss_grads)))"

text \<open>Lines 193 to 226: the losses at the perturbed point and their differentiable
  gradients \<^verbatim>\<open>loss_grads_new\<close>; \<^verbatim>\<open>loss_grads_copy\<close> holds detached copies of the same
  tensors.\<close>

definition hero_second_pass ::
  "'obs policy \<Rightarrow> config \<Rightarrow> 'obs rollout_data \<Rightarrow> param list \<Rightarrow> error + tensor list" where
  "hero_second_pass pol cfg rollout ps2 =
     (case pass_losses pol cfg rollout ps2 of
        Inl e \<Rightarrow> Inl e
      | Inr losses_new \<Rightarrow> autograd_grad (loss_grad pol (map data ps2)))"

text \<open>Lines 228 to 235: the curvature loss and \<^verbatim>\<open>hero_loss.backward()\<close>, which a Python
  float does not have.\<close>

definition hero_backward ::
  "'obs policy \<Rightarrow> param list \<Rightarrow> tensor list \<Rightarrow> tensor list \<Rightarrow> error + param list" where
  "hero_backward pol ps2 loss_grads loss_grads_new =
     (case hero_loop (map pname ps2) loss_grads loss_grads_new of
        Inl e \<Rightarrow> Inl e
      | Inr (PyFloat x) \<Rightarrow> Inl AttributeError
      | Inr (HeroTensor x cts) \<Rightarrow>
          Inr (backward (grad_vjp pol (map data ps2) (map cts [0..<length loss_grads_new])) ps2))"

text \<open>Lines 182 to 237: everything before \<^verbatim>\<open>second_step\<close>. The result holds the
  parameters with the gradients that the descent step will use, and the saved values.\<close>

definition hero_prepare ::
  "'obs policy \<Rightarrow> config \<Rightarrow> 'obs rollout_data \<Rightarrow> param list \<Rightarrow>
   error \<times> param list + param list \<times> tensor list" where
  "hero_prepare pol cfg rollout ps =
     (case hero_first_pass pol cfg ps of
        Inl e \<Rightarrow> Inl e
      | Inr (ps2, old_p, loss_grads) \<Rightarrow>
          (case hero_second_pass pol cfg rollout ps2 of
             Inl e \<Rightarrow> Inl (e, ps2)
           | Inr loss_grads_new \<Rightarrow>
               let loss_grads_copy = loss_grads_new
               in case hero_backward pol ps2 loss_grads loss_grads_new of
                    Inl e \<Rightarrow> Inl (e, ps2)
                  | Inr ps3 \<Rightarrow>
                      (case add_grads ps3 loss_grads_copy of
                         Inl e \<Rightarrow> Inl e
                       | Inr ps4 \<Rightarrow> Inr (ps4, old_p))))"

definition train_hero ::
  "'obs policy \<Rightarrow> config \<Rightarrow> 'obs rollout_data \<Rightarrow> param list \<Rightarrow> error \<times> param list + param list" where
  "train_hero pol cfg rollout ps =
     (case hero_prepare pol cfg rollout ps of
        Inl e \<Rightarrow> Inl e
      | Inr (ps4, old_p) \<Rightarrow> Inr (second_step (sgd_step pol) True (set_to_none cfg) old_p ps4))"

text \<open>The SAM branch, lines 241 to 273: everything before \<^verbatim>\<open>second_step\<close>.\<close>

definition sam_prepare ::
  "'obs policy \<Rightarrow> config \<Rightarrow> 'obs rollout_data \<Rightarrow> param list \<Rightarrow>
   error \<times> param list + param list \<times> tensor list" where
  "sam_prepare pol cfg rollout ps =
     (let ps1 = backward (loss_grad pol (map data ps)) ps
      in case first_step (rho cfg) adaptive True (set_to_none cfg) ps1 of
           (ps2, old_p) \<Rightarrow>
             (case pass_losses pol cfg rollout ps2 of
                Inl e \<Rightarrow> Inl (e, ps2)
              | Inr losses_new \<Rightarrow> Inr (backward (loss_grad pol (map data ps2)) ps2, old_p)))"

definition train_sam ::
  "'obs policy \<Rightarrow> config \<Rightarrow> 'obs rollout_data \<Rightarrow> param list \<Rightarrow> error \<times> param list + param list" where
  "train_sam pol cfg rollout ps =
     (case sam_prepare pol cfg rollout ps of
        Inl e \<Rightarrow> Inl e
      | Inr (ps3, old_p) \<Rightarrow> Inr (second_step (sgd_step pol) True (set_to_none cfg) old_p ps3))"

text \<open>The base branch, lines 276 to 282. \<open>base_grads\<close> is the gradient of its backward
  pass, before the clipping.\<close>

definition base_grads :: "'obs policy \<Rightarrow> config \<Rightarrow> param list \<Rightarrow> param list" where
  "base_grads pol cfg ps =
     backward (loss_grad pol (map data ps)) (zero_grad (set_to_none cfg) ps)"

definition train_base :: "'obs policy \<Rightarrow> config \<Rightarrow> param list \<Rightarrow> param list" where
  "train_base pol cfg ps =
     optimizer_step pol (clip_grad_norm (max_grad_norm cfg) (base_grads pol cfg ps))"

text \<open>The records of lines 289 to 291.\<close>

record metrics =
  train_entropy_loss :: real
  train_policy_loss :: real
  train_value_loss :: real

text \<open>
  \<^verbatim>\<open>A2C.train\<close>: the losses of the first pass (lines 153 to 179), the branch that
  \<^verbatim>\<open>optimize_choice\<close> selects, and the records of the logger. The result is the parameters
  after the step with the logged losses, or the error with the parameters as they are
  when it is raised.
\<close>

definition train ::
  "'obs policy \<Rightarrow> config \<Rightarrow> 'obs rollout_data \<Rightarrow> param list \<Rightarrow>
   error \<times> param list + param list \<times> metrics" where
  "train pol cfg rollout ps =
     (case pass_losses pol cfg rollout ps of
        Inl e \<Rightarrow> Inl (e, ps)
      | Inr L \<Rightarrow>
          (case (if optimize_choice cfg = ''HERO'' then train_hero pol cfg rollout ps
                 else if optimize_choice cfg = ''SAM'' then train_sam pol cfg rollout ps
                 else Inr (train_base pol cfg ps)) of
             Inl e \<Rightarrow> Inl e
           | Inr ps' \<Rightarrow>
               Inr (ps', \<lparr>train_entropy_loss = entropy_loss L,
                          train_policy_loss = policy_loss L,
                          train_value_loss = value_loss L\<rparr>)))"

section \<open>Conditions on the inputs of a step\<close>

text \<open>
  The conditions under which the theorems on the perturbation radius zero are stated:
  a gradient that is absent or zero (\<open>zero_or_none\<close>), a gradient that has the shape of
  its parameter (\<open>shaped\<close>), both together (\<open>zero_like\<close>), and a parameter whose gradient
  is cleared, as \<^verbatim>\<open>zero_grad\<close> or a fresh model leaves it (\<open>cleared\<close>). \<open>zg\<close> is what
  \<open>zero_grad\<close> does to one gradient, and \<open>hero_cotangent\<close> reads the cotangent that a
  curvature loss holds for the gradient of a parameter.
\<close>

definition zero_tensor :: "tensor \<Rightarrow> bool" where
  "zero_tensor t \<longleftrightarrow> (\<forall>x\<in>set t. x = 0)"

definition zero_or_none :: "tensor option \<Rightarrow> bool" where
  "zero_or_none g = (case g of None \<Rightarrow> True | Some t \<Rightarrow> zero_tensor t)"

definition shaped :: "tensor \<Rightarrow> tensor option \<Rightarrow> bool" where
  "shaped d g = (case g of None \<Rightarrow> True | Some t \<Rightarrow> length t = length d)"

definition cleared :: "param \<Rightarrow> bool" where
  "cleared p \<longleftrightarrow> zero_or_none (grad p) \<and> shaped (data p) (grad p)"

definition zero_like :: "tensor \<Rightarrow> tensor option \<Rightarrow> bool" where
  "zero_like d g \<longleftrightarrow> zero_or_none g \<and> shaped d g"

definition zg :: "bool \<Rightarrow> tensor option \<Rightarrow> tensor option" where
  "zg to_none g = (if to_none then None else map_option (map (\<lambda>x. 0)) g)"

fun hero_cotangent :: "hero_loss \<Rightarrow> nat \<Rightarrow> tensor option" where
  "hero_cotangent (PyFloat x) i = None"
| "hero_cotangent (HeroTensor x c) i = c i"

section \<open>Example inputs\<close>

text \<open>
  A policy to run the step on. Its loss is the value loss of one transition with return 0
  whose value is the first parameter: with \<open>vf_coef = 1\<close> and a first parameter \<open>[w]\<close> the
  loss is \<open>w\<^sup>2\<close>, its gradient \<open>2 * w\<close> and its Hessian 2. The log-probability is 0 and
  there is no analytic entropy. Parameters after the first are not used by the loss. Both
  optimizers are a plain gradient step with learning rate \<open>1 / 10\<close>.
\<close>

definition gd_step :: "param list \<Rightarrow> param list" where
  "gd_step ps =
     map (\<lambda>p. case grad p of
                None \<Rightarrow> p
              | Some g \<Rightarrow> p\<lparr>data := map2 (\<lambda>x d. x - d / 10) (data p) g\<rparr>) ps"

definition demo_policy :: "unit policy" where
  "demo_policy =
     \<lparr>evaluate_actions = (\<lambda>w obs acts. (case w of [] \<Rightarrow> [] | t # ts \<Rightarrow> t, [0], None)),
      loss_grad = (\<lambda>w. case w of [] \<Rightarrow> []
                        | t # ts \<Rightarrow> Some (map (\<lambda>x. 2 * x) t) # map (\<lambda>u. None) ts),
      grad_vjp = (\<lambda>w c. case c of [] \<Rightarrow> []
                        | t # ts \<Rightarrow> map_option (map (\<lambda>x. 2 * x)) t # map (\<lambda>u. None) ts),
      optimizer_step = gd_step,
      sgd_step = gd_step\<rparr>"

definition demo_rollout :: "unit rollout_data" where
  "demo_rollout = \<lparr>observations = (), actions = [0], advantages = [0], returns = [0]\<rparr>"

definition demo_config :: "string \<Rightarrow> real \<Rightarrow> config" where
  "demo_config choice r =
     \<lparr>optimize_choice = choice, rho = r, normalize_advantage = False, ent_coef = 0,
      vf_coef = 1, max_grad_norm = 1 / 2, set_to_none = True\<rparr>"

definition demo_params :: "param list" where
  "demo_params = [\<lparr>pname = ''value_net.weight'', data = [1], grad = None\<rparr>]"

text \<open>The scale \<open>rho / (norm + 1e-12)\<close> of \<^verbatim>\<open>first_step\<close> for gradients of norm 2 and of
  norm 5.\<close>

definition demo_scale :: "real \<Rightarrow> real" where
  "demo_scale r = r / (2 + 1 / 10 ^ 12)"




text \<open>Parameters with one that the loss does not use: with no gradient yet, and with the
  zero gradients that \<^verbatim>\<open>zero_grad(set_to_none=False)\<close> leaves.\<close>

definition unused_params :: "param list" where
  "unused_params =
     [\<lparr>pname = ''value_net.weight'', data = [1], grad = None\<rparr>,
      \<lparr>pname = ''extra.weight'', data = [5], grad = None\<rparr>]"

definition stale_params :: "param list" where
  "stale_params =
     [\<lparr>pname = ''value_net.weight'', data = [1], grad = Some [0]\<rparr>,
      \<lparr>pname = ''extra.weight'', data = [5], grad = Some [0]\<rparr>]"

text \<open>The coefficient of \<^verbatim>\<open>clip_grad_norm_\<close> for \<open>max_grad_norm = 0.5\<close> and gradients of
  norm 2.\<close>

definition demo_clip :: real where
  "demo_clip = (1 / 2) / (2 + 1 / 10 ^ 6)"

section \<open>Properties of the losses\<close>

lemma sum_list_zip_nth:
  "length xs = n \<Longrightarrow> length ys = n \<Longrightarrow>
   sum_list (map g (zip xs ys)) = (\<Sum>i<n. g (xs ! i, ys ! i))"
  by (simp add: sum_list_sum_nth atLeast0LessThan)

lemma broadcast2_same_length:
  "length a = length b \<Longrightarrow> broadcast2 f a b = Inr (map2 f a b)"
  by (simp add: broadcast2_def)

lemma mean_map2_nth:
  assumes "length a = n" and "length b = n"
  shows "mean (map2 f a b) = (\<Sum>i<n. f (a ! i) (b ! i)) / real n"
  using assms by (simp add: mean_def sum_list_zip_nth [OF assms])

lemma mse_loss_same_length:
  assumes "length a = n" and "length b = n"
  shows "mse_loss a b = Inr ((\<Sum>i<n. (a ! i - b ! i)\<^sup>2) / real n)"
proof -
  have "mean (map (\<lambda>x. x\<^sup>2) (map2 (-) a b)) = mean (map2 (\<lambda>x y. (x - y)\<^sup>2) a b)"
    by (simp add: o_def case_prod_unfold)
  also have "\<dots> = (\<Sum>i<n. (a ! i - b ! i)\<^sup>2) / real n"
    using assms by (rule mean_map2_nth)
  finally show ?thesis
    using assms by (simp add: mse_loss_def broadcast2_same_length)
qed

text \<open>
  C6. For a batch of \<open>n\<close> transitions (advantages, returns, values and
  log-probabilities all of length \<open>n\<close>) the pass returns the four losses, and they are
  the policy loss \<open>- (\<Sum> adv\<^sub>i * log_prob\<^sub>i) / n\<close> over the (possibly normalised)
  advantages, the mean squared error between the returns and the values, the negated
  mean entropy (or, with no analytic entropy, the negated mean of \<open>- log_prob\<close>), and
  \<open>policy_loss + ent_coef * entropy_loss + vf_coef * value_loss\<close>.
\<close>

theorem compute_losses_formulas:
  assumes "length (advantages rollout) = n" and "length log_prob = n"
    and "length (returns rollout) = n" and "length vals = n"
  shows "\<exists>L. compute_losses cfg (vals, log_prob, entropy) rollout = Inr L \<and>
     policy_loss L =
       - ((\<Sum>i<n. (if normalize_advantage cfg then normalize_adv (advantages rollout)
                     else advantages rollout) ! i * log_prob ! i) / real n) \<and>
     value_loss L = (\<Sum>i<n. (returns rollout ! i - vals ! i)\<^sup>2) / real n \<and>
     entropy_loss L =
       (case entropy of
          Some ent \<Rightarrow> - (sum_list ent / real (length ent))
        | None \<Rightarrow> - ((\<Sum>i<n. - log_prob ! i) / real n)) \<and>
     loss L = policy_loss L + ent_coef cfg * entropy_loss L + vf_coef cfg * value_loss L"
proof -
  let ?adv = "if normalize_advantage cfg then normalize_adv (advantages rollout)
              else advantages rollout"
  have la: "length ?adv = n"
    using assms(1) by (simp add: normalize_adv_def)
  have w: "broadcast2 (*) ?adv log_prob = Inr (map2 (*) ?adv log_prob)"
    using la assms(2) by (simp add: broadcast2_same_length)
  have pl: "mean (map2 (*) ?adv log_prob) = (\<Sum>i<n. ?adv ! i * log_prob ! i) / real n"
    using la assms(2) by (rule mean_map2_nth)
  have vl: "mse_loss (returns rollout) vals = Inr ((\<Sum>i<n. (returns rollout ! i - vals ! i)\<^sup>2) / real n)"
    using assms(3,4) by (rule mse_loss_same_length)
  have el: "mean (map uminus log_prob) = (\<Sum>i<n. - log_prob ! i) / real n"
    using assms(2) by (simp add: mean_def sum_list_sum_nth atLeast0LessThan)
  show ?thesis
  proof (cases entropy)
    case None
    then show ?thesis
      unfolding compute_losses_def Let_def prod.case w sum.case pl vl
      by (simp add: el)
  next
    case (Some ent)
    then show ?thesis
      unfolding compute_losses_def Let_def prod.case w sum.case pl vl
      by (simp add: mean_def)
  qed
qed

theorem compute_losses_formulas_witness:
  "length (advantages \<lparr>observations = (), actions = [0, 1], advantages = [1, - 1],
      returns = [2, 0]\<rparr>) = 2 \<and>
   compute_losses \<lparr>optimize_choice = ''base'', rho = 0, normalize_advantage = False,
       ent_coef = 0, vf_coef = 1 / 2, max_grad_norm = 1 / 2, set_to_none = True\<rparr>
     ([1, 1], [- 1, - 2], None)
     \<lparr>observations = (), actions = [0, 1], advantages = [1, - 1], returns = [2, 0]\<rparr>
   = Inr \<lparr>policy_loss = - (1 / 2), value_loss = 1, entropy_loss = - (3 / 2), loss = 0\<rparr>"
proof -
  let ?r = "\<lparr>observations = (), actions = [0, 1], advantages = [1, - 1], returns = [2::real, 0]\<rparr>"
  let ?c = "\<lparr>optimize_choice = ''base'', rho = 0, normalize_advantage = False,
       ent_coef = 0, vf_coef = 1 / 2, max_grad_norm = 1 / 2, set_to_none = True\<rparr>"
  have h: "length (advantages ?r) = 2" "length [- 1, - 2 :: real] = 2"
    "length (returns ?r) = 2" "length [1, 1 :: real] = 2"
    by simp_all
  from compute_losses_formulas [OF h, of ?c None]
  obtain L where L: "compute_losses ?c ([1, 1], [- 1, - 2], None) ?r = Inr L"
    "policy_loss L = - (1 / 2)" "value_loss L = 1" "entropy_loss L = - (3 / 2)"
    "loss L = policy_loss L + ent_coef ?c * entropy_loss L + vf_coef ?c * value_loss L"
    by (auto simp: lessThan_Suc numeral_2_eq_2 power2_eq_square)
  then have "L = \<lparr>policy_loss = - (1 / 2), value_loss = 1, entropy_loss = - (3 / 2), loss = 0\<rparr>"
    by simp
  with L(1) show ?thesis by simp
qed

section \<open>Normalised advantages\<close>

lemma mean_adv10: "mean adv10 = 0"
  by (simp add: mean_def adv10_def)

lemma var_adv10: "var adv10 = 10 / 9"
  unfolding var_def mean_adv10 by (simp add: adv10_def)

lemma normalize_adv10:
  "normalize_adv adv10 = map (\<lambda>x. x / (sqrt (10 / 9) + 1 / 10 ^ 8)) adv10"
  unfolding normalize_adv_def mean_adv10 std_def var_adv10 by simp

lemma var_close:
  fixes s e :: real
  assumes "1 \<le> s" and "0 \<le> e"
  shows "\<bar>s\<^sup>2 / (s + e)\<^sup>2 - 1\<bar> \<le> 2 * e"
proof -
  have x1: "1 \<le> s + e" using assms by simp
  have pos: "0 < (s + e)\<^sup>2" using x1 by simp
  have "1 - s\<^sup>2 / (s + e)\<^sup>2 = ((s + e)\<^sup>2 - s\<^sup>2) / (s + e)\<^sup>2"
    using pos by (simp add: diff_divide_distrib)
  also have "(s + e)\<^sup>2 - s\<^sup>2 = e * (2 * s + e)"
    by (simp add: power2_eq_square algebra_simps)
  finally have eq: "1 - s\<^sup>2 / (s + e)\<^sup>2 = e * (2 * s + e) / (s + e)\<^sup>2" .
  have nonneg: "0 \<le> e * (2 * s + e) / (s + e)\<^sup>2"
    using assms by simp
  have sq: "s + e \<le> (s + e)\<^sup>2"
    using x1 by (rule self_le_power) simp
  have "2 * s + e \<le> 2 * (s + e)" using assms by simp
  also have "\<dots> \<le> 2 * (s + e)\<^sup>2" using sq by simp
  finally have "e * (2 * s + e) \<le> e * (2 * (s + e)\<^sup>2)"
    using assms(2) by (rule mult_left_mono)
  then have "e * (2 * s + e) \<le> 2 * e * (s + e)\<^sup>2"
    by (simp only: mult.assoc mult.left_commute)
  then have "e * (2 * s + e) / (s + e)\<^sup>2 \<le> 2 * e"
    using pos by (simp only: divide_le_eq if_True)
  with eq nonneg show ?thesis by linarith
qed


lemma mean_normalize_adv10: "mean (normalize_adv adv10) = 0"
  unfolding normalize_adv10 by (simp add: adv10_def mean_def)

lemma sum_sq_normalize_adv10:
  "sum_list (map (\<lambda>x. (x - 0)\<^sup>2) (map (\<lambda>x. x / c) adv10)) = 10 / c\<^sup>2" for c :: real
  by (simp add: adv10_def power_divide)

lemma var_normalize_adv10:
  "var (normalize_adv adv10) = (sqrt (10 / 9))\<^sup>2 / (sqrt (10 / 9) + 1 / 10 ^ 8)\<^sup>2"
proof -
  have len: "real (length (normalize_adv adv10)) - 1 = 9"
    by (simp add: normalize_adv_def adv10_def)
  have sq: "(sqrt (10 / 9 :: real))\<^sup>2 = 10 / 9"
    by (rule real_sqrt_pow2) simp
  have "var (normalize_adv adv10) = 10 / (sqrt (10 / 9) + 1 / 10 ^ 8)\<^sup>2 / 9"
    unfolding var_def mean_normalize_adv10 len
    unfolding normalize_adv10 sum_sq_normalize_adv10 ..
  also have "\<dots> = (10 / 9) / (sqrt (10 / 9) + 1 / 10 ^ 8)\<^sup>2"
    by (simp only: divide_divide_eq_left mult.commute)
  finally show ?thesis unfolding sq .
qed

text \<open>
  C9. With \<^verbatim>\<open>normalize_advantage\<close> set, the advantages \<open>[1,1,1,1,1,-1,-1,-1,-1,-1]\<close> are
  normalised to a tensor whose mean is 0 and whose variance (with Bessel's correction,
  as \<^verbatim>\<open>std\<close> of line 164 and \<^verbatim>\<open>var\<close> of torch compute it) is 1, both within \<open>10\<^sup>-\<^sup>6\<close>.
  Over the reals the mean is exactly 0 and the variance misses 1 by less than
  \<open>2 * 10\<^sup>-\<^sup>8\<close>, the effect of the \<open>1e-8\<close> in the denominator.
\<close>

theorem normalized_advantages_unit:
  "\<bar>mean (normalize_adv [1, 1, 1, 1, 1, - 1, - 1, - 1, - 1, - 1])\<bar> \<le> 1 / 10 ^ 6 \<and>
   \<bar>var (normalize_adv [1, 1, 1, 1, 1, - 1, - 1, - 1, - 1, - 1]) - 1\<bar> \<le> 1 / 10 ^ 6"
proof -
  have s1: "1 \<le> sqrt (10 / 9 :: real)" by simp
  have "\<bar>(sqrt (10 / 9))\<^sup>2 / (sqrt (10 / 9) + 1 / 10 ^ 8)\<^sup>2 - 1\<bar> \<le> 2 * (1 / 10 ^ 8 :: real)"
    using s1 by (rule var_close) simp
  also have "2 * (1 / 10 ^ 8 :: real) \<le> 1 / 10 ^ 6" by simp
  finally have v: "\<bar>var (normalize_adv adv10) - 1\<bar> \<le> 1 / 10 ^ 6"
    unfolding var_normalize_adv10 .
  have m: "\<bar>mean (normalize_adv adv10)\<bar> \<le> 1 / 10 ^ 6"
    unfolding mean_normalize_adv10 by simp
  from m v show ?thesis unfolding adv10_def by (rule conjI)
qed

section \<open>The curvature loss: sign, zero and the name filter\<close>

lemma hero_inner_miss:
  "index_param < k \<Longrightarrow> hero_inner index_param k zs h = Inr h"
  by (induction zs arbitrary: k) auto

lemma hero_inner_nth:
  "hero_inner index_param k zs h =
     (if k \<le> index_param \<and> index_param < k + length zs
      then hero_add h index_param (snd (zs ! (index_param - k))) (fst (zs ! (index_param - k)))
      else Inr h)"
proof (induction zs arbitrary: k)
  case Nil
  then show ?case by auto
next
  case (Cons z zs)
  obtain gr gc where z: "z = (gr, gc)" by (cases z)
  show ?case
  proof (cases "index_param = k")
    case True
    then show ?thesis
      by (simp add: z hero_inner_miss split: sum.split)
  next
    case False
    then show ?thesis
      using Cons.IH [of "Suc k"] by (auto simp: z nth_Cons' Suc_diff_le)
  qed
qed

lemma hero_value_add:
  "hero_add h i gc gr = Inr h' \<Longrightarrow>
   \<exists>m. mse_loss gc gr = Inr m \<and> hero_value h' = hero_value h + lambda_hero * m"
  by (cases h) (auto simp: hero_add_def Let_def split: sum.splits)

lemma hero_add_error:
  "hero_add h i gc gr = Inl e \<longleftrightarrow> mse_loss gc gr = Inl e"
  by (auto simp: hero_add_def Let_def split: sum.splits)

lemma hero_outer_terms:
  "(case hero_outer k names zs h of Inl e \<Rightarrow> Inl e | Inr h' \<Rightarrow> Inr (hero_value h')) =
     (case spec_curvature_loss (zip names (drop k zs)) of
        Inl e \<Rightarrow> Inl e
      | Inr s \<Rightarrow> Inr (hero_value h + s))"
proof (induction names arbitrary: k h)
  case Nil
  then show ?case by simp
next
  case (Cons name names)
  show ?case
  proof (cases "k < length zs")
    case False
    then have d: "drop k zs = []" by simp
    have inner: "hero_inner k 0 zs h = Inr h"
      using False by (simp add: hero_inner_nth)
    have "drop (Suc k) zs = []" using False by simp
    then have "(case hero_outer (Suc k) names zs h of Inl e \<Rightarrow> Inl e
        | Inr h' \<Rightarrow> Inr (hero_value h')) = (Inr (hero_value h) :: error + real)"
      using Cons.IH [of "Suc k" h] by simp
    then show ?thesis by (simp add: d inner)
  next
    case True
    then have d: "drop k zs = zs ! k # drop (Suc k) zs"
      by (simp add: Cons_nth_drop_Suc)
    obtain gr gc where z: "zs ! k = (gr, gc)" by (cases "zs ! k")
    have inner: "hero_inner k 0 zs h = hero_add h k gc gr"
      using True by (simp add: hero_inner_nth z)
    show ?thesis
    proof (cases "weight_filter name")
      case False
      then show ?thesis using Cons.IH [of "Suc k" h] by (simp add: d z)
    next
      case wf: True
      show ?thesis
      proof (cases "hero_add h k gc gr")
        case (Inl e)
        then show ?thesis
          using wf by (simp add: d z inner hero_add_error [THEN iffD1, OF Inl])
      next
        case (Inr h')
        from hero_value_add [OF Inr] obtain m where
          m: "mse_loss gc gr = Inr m" "hero_value h' = hero_value h + lambda_hero * m"
          by blast
        show ?thesis
          using wf Cons.IH [of "Suc k" h']
          by (simp add: d z inner Inr m split: sum.split)
      qed
    qed
  qed
qed

lemma hero_term_terms:
  "hero_term names loss_grads loss_grads_new =
     spec_curvature_loss (zip names (zip loss_grads loss_grads_new))"
  unfolding hero_term_def hero_loop_def hero_outer_terms
  by (simp split: sum.split)


lemma mse_loss_nonneg: "mse_loss a b = Inr m \<Longrightarrow> 0 \<le> m"
proof -
  have "0 \<le> mean (map (\<lambda>x. x\<^sup>2) d)" for d
    unfolding mean_def by (intro divide_nonneg_nonneg sum_list_nonneg) auto
  then show "mse_loss a b = Inr m \<Longrightarrow> 0 \<le> m"
    by (auto simp: mse_loss_def split: sum.splits)
qed

lemma mse_loss_zero_iff:
  assumes "length a = length b" and "mse_loss a b = Inr m"
  shows "m = 0 \<longleftrightarrow> a = b"
proof -
  let ?d = "map (\<lambda>x. x\<^sup>2) (map2 (-) a b)"
  have m: "m = sum_list ?d / real (length a)"
    using assms by (simp add: mse_loss_def broadcast2_same_length mean_def)
  have nonneg: "\<And>x. x \<in> set ?d \<Longrightarrow> 0 \<le> x" by auto
  show ?thesis
  proof (cases "a = []")
    case True
    then show ?thesis using assms(1) m by simp
  next
    case False
    then have "m = 0 \<longleftrightarrow> sum_list ?d = 0" using m by simp
    also have "\<dots> \<longleftrightarrow> (\<forall>x\<in>set ?d. x = 0)"
      using nonneg by (rule sum_list_nonneg_eq_0_iff)
    also have "\<dots> \<longleftrightarrow> (\<forall>(x, y)\<in>set (zip a b). x = y)"
      by auto
    also have "\<dots> \<longleftrightarrow> a = b"
      using assms(1) by (simp add: list_eq_iff_zip_eq)
    finally show ?thesis .
  qed
qed

lemma lambda_hero_pos: "0 < lambda_hero"
  by (simp add: lambda_hero_def)

lemma spec_curvature_loss_nonneg_zero_iff:
  assumes "\<forall>t\<in>set ts. weight_filter (fst t) \<longrightarrow> length (snd (snd t)) = length (fst (snd t))"
  shows "\<exists>v. spec_curvature_loss ts = Inr v \<and> 0 \<le> v \<and>
           (v = 0 \<longleftrightarrow> (\<forall>t\<in>set ts. weight_filter (fst t) \<longrightarrow> snd (snd t) = fst (snd t)))"
  using assms
proof (induction ts)
  case Nil
  then show ?case by simp
next
  case (Cons t ts)
  obtain name g gn where t: "t = (name, g, gn)" by (cases t)
  have "\<forall>t\<in>set ts. weight_filter (fst t) \<longrightarrow> length (snd (snd t)) = length (fst (snd t))"
    using Cons.prems by simp
  from Cons.IH [OF this] obtain v where v: "spec_curvature_loss ts = Inr v" "0 \<le> v"
    "v = 0 \<longleftrightarrow> (\<forall>t\<in>set ts. weight_filter (fst t) \<longrightarrow> snd (snd t) = fst (snd t))"
    by blast
  show ?case
  proof (cases "weight_filter name")
    case False
    then show ?thesis using v by (simp add: t)
  next
    case True
    with Cons.prems have len: "length gn = length g" by (simp add: t)
    then obtain m where m: "mse_loss gn g = Inr m"
      by (simp add: mse_loss_def broadcast2_same_length)
    have m0: "0 \<le> m" using m by (rule mse_loss_nonneg)
    have mz: "m = 0 \<longleftrightarrow> gn = g" using len m by (rule mse_loss_zero_iff)
    have sum0: "lambda_hero * m + v = 0 \<longleftrightarrow> m = 0 \<and> v = 0"
      using m0 v(2) by (simp add: lambda_hero_def add_nonneg_eq_0_iff)
    have val: "spec_curvature_loss (t # ts) = Inr (lambda_hero * m + v)"
      using True by (simp add: t m v(1))
    have nonneg: "0 \<le> lambda_hero * m + v"
      using m0 v(2) by (simp add: lambda_hero_def)
    have "lambda_hero * m + v = 0 \<longleftrightarrow>
          (\<forall>t\<in>set (t # ts). weight_filter (fst t) \<longrightarrow> snd (snd t) = fst (snd t))"
      unfolding sum0 mz v(3) using True by (simp add: t)
    with val nonneg show ?thesis by blast
  qed
qed

lemma ball_zip3:
  "(\<forall>t\<in>set (zip names (zip lg lgn)). P (fst t) (fst (snd t)) (snd (snd t))) \<longleftrightarrow>
   (\<forall>i. i < length names \<and> i < length lg \<and> i < length lgn \<longrightarrow> P (names ! i) (lg ! i) (lgn ! i))"
  by (force simp: set_zip)

text \<open>
  C7. For gradient snapshots in which every parameter that passes the name filter has
  one shape in both (as the gradients of one parameter have), the loops of lines 229 to
  234 return a curvature term, it is not negative, and it is 0 exactly when the detached
  gradient of the first pass and the differentiable gradient of the second pass are equal
  for every parameter that passes the filter.
\<close>

theorem hero_term_nonneg_zero_iff:
  assumes "\<forall>i. i < length names \<and> i < length lg \<and> i < length lgn \<and> weight_filter (names ! i)
              \<longrightarrow> length (lgn ! i) = length (lg ! i)"
  shows "\<exists>v. hero_term names lg lgn = Inr v \<and> 0 \<le> v \<and>
           (v = 0 \<longleftrightarrow>
              (\<forall>i. i < length names \<and> i < length lg \<and> i < length lgn \<and> weight_filter (names ! i)
                 \<longrightarrow> lgn ! i = lg ! i))"
proof -
  let ?ts = "zip names (zip lg lgn)"
  have "\<forall>t\<in>set ?ts. weight_filter (fst t) \<longrightarrow> length (snd (snd t)) = length (fst (snd t))"
    unfolding ball_zip3 [where P = "\<lambda>n g gn. weight_filter n \<longrightarrow> length gn = length g"]
    using assms by blast
  from spec_curvature_loss_nonneg_zero_iff [OF this] obtain v where
    v: "spec_curvature_loss ?ts = Inr v" "0 \<le> v"
    "v = 0 \<longleftrightarrow> (\<forall>t\<in>set ?ts. weight_filter (fst t) \<longrightarrow> snd (snd t) = fst (snd t))"
    by blast
  have "v = 0 \<longleftrightarrow>
      (\<forall>i. i < length names \<and> i < length lg \<and> i < length lgn \<and> weight_filter (names ! i)
         \<longrightarrow> lgn ! i = lg ! i)"
    unfolding v(3) ball_zip3 [where P = "\<lambda>n g gn. weight_filter n \<longrightarrow> gn = g"]
    by blast
  with v(1,2) show ?thesis
    unfolding hero_term_terms by blast
qed

lemma hero_outer_ignores:
  assumes "length zs' = length zs"
    and "\<forall>j. j < length names \<and> k + j < length zs \<and> weight_filter (names ! j)
           \<longrightarrow> zs' ! (k + j) = zs ! (k + j)"
  shows "hero_outer k names zs' h = hero_outer k names zs h"
  using assms(2)
proof (induction names arbitrary: k h)
  case Nil
  then show ?case by simp
next
  case (Cons name names)
  have rest: "\<forall>j. j < length names \<and> Suc k + j < length zs \<and> weight_filter (names ! j)
           \<longrightarrow> zs' ! (Suc k + j) = zs ! (Suc k + j)"
  proof (intro allI impI)
    fix j
    assume "j < length names \<and> Suc k + j < length zs \<and> weight_filter (names ! j)"
    then show "zs' ! (Suc k + j) = zs ! (Suc k + j)"
      using Cons.prems [rule_format, of "Suc j"] by simp
  qed
  show ?case
  proof (cases "weight_filter name")
    case False
    then show ?thesis using Cons.IH [OF rest] by simp
  next
    case True
    have "k < length zs \<Longrightarrow> zs' ! k = zs ! k"
      using Cons.prems [rule_format, of 0] True by simp
    then have "hero_inner k 0 zs' h = hero_inner k 0 zs h"
      by (simp add: hero_inner_nth assms(1))
    then show ?thesis using True Cons.IH [OF rest] by (simp split: sum.split)
  qed
qed

text \<open>
  C8. The gradients of the parameters whose name contains \<^verbatim>\<open>bias\<close> or \<^verbatim>\<open>bn\<close> do not
  enter the curvature loss: changing them changes neither the loss that the loops build
  nor its value, and the value is the sum, over the parameters that pass the filter, of
  \<open>lambda_hero\<close> times the mean squared error of the two gradients.
\<close>

theorem hero_loop_ignores_bias_and_bn:
  assumes "length lg' = length lg" and "length lgn' = length lgn"
    and "\<forall>i. i < length names \<and> i < length lg \<and> i < length lgn \<and>
             \<not> sublist ''bias'' (names ! i) \<and> \<not> sublist ''bn'' (names ! i)
           \<longrightarrow> lg' ! i = lg ! i \<and> lgn' ! i = lgn ! i"
  shows "hero_loop names lg' lgn' = hero_loop names lg lgn \<and>
         hero_term names lg' lgn' = hero_term names lg lgn \<and>
         hero_term names lg lgn = spec_curvature_loss (zip names (zip lg lgn))"
proof -
  have "hero_loop names lg' lgn' = hero_loop names lg lgn"
    unfolding hero_loop_def
    using assms by (intro hero_outer_ignores) (auto simp: weight_filter_def)
  then show ?thesis
    by (simp add: hero_term_def hero_term_terms [unfolded hero_term_def])
qed


lemma weight_filter_examples:
  "weight_filter ''w.weight''" "\<not> weight_filter ''w.bias''" "\<not> weight_filter ''bn1.weight''"
  by (simp_all add: weight_filter_def sublist_code)

theorem hero_term_nonneg_zero_iff_witness:
  "hero_term [''w.weight'', ''w.bias''] [[1, 2], [3]] [[1, 2], [5]] = Inr 0 \<and>
   weight_filter ''w.weight'' \<and> \<not> weight_filter ''w.bias''"
proof -
  let ?names = "[''w.weight'', ''w.bias'']"
  let ?lg = "[[1, 2], [3 :: real]]"
  let ?lgn = "[[1, 2], [5 :: real]]"
  have shapes: "\<forall>i. i < length ?names \<and> i < length ?lg \<and> i < length ?lgn \<and> weight_filter (?names ! i)
              \<longrightarrow> length (?lgn ! i) = length (?lg ! i)"
    by (auto simp: less_Suc_eq)
  have same: "\<forall>i. i < length ?names \<and> i < length ?lg \<and> i < length ?lgn \<and> weight_filter (?names ! i)
              \<longrightarrow> ?lgn ! i = ?lg ! i"
    using weight_filter_examples(2) by (auto simp: less_Suc_eq)
  from hero_term_nonneg_zero_iff [OF shapes] same
  have "hero_term ?names ?lg ?lgn = Inr 0" by blast
  then show ?thesis using weight_filter_examples by simp
qed

theorem hero_loop_ignores_bias_and_bn_witness:
  "hero_loop [''w.weight'', ''w.bias'', ''bn1.weight''] [[1, 2], [30], [40]] [[1, 4], [50], [60]] =
   hero_loop [''w.weight'', ''w.bias'', ''bn1.weight''] [[1, 2], [3], [4]] [[1, 4], [5], [6]] \<and>
   hero_term [''w.weight'', ''w.bias'', ''bn1.weight''] [[1, 2], [3], [4]] [[1, 4], [5], [6]] = Inr 2"
proof -
  let ?names = "[''w.weight'', ''w.bias'', ''bn1.weight'']"
  let ?lg = "[[1, 2], [3], [4 :: real]]" and ?lg' = "[[1, 2], [30], [40 :: real]]"
  let ?lgn = "[[1, 4], [5], [6 :: real]]" and ?lgn' = "[[1, 4], [50], [60 :: real]]"
  have l: "length ?lg' = length ?lg" "length ?lgn' = length ?lgn" by simp_all
  have same: "\<forall>i. i < length ?names \<and> i < length ?lg \<and> i < length ?lgn \<and>
             \<not> sublist ''bias'' (?names ! i) \<and> \<not> sublist ''bn'' (?names ! i)
           \<longrightarrow> ?lg' ! i = ?lg ! i \<and> ?lgn' ! i = ?lgn ! i"
    using weight_filter_examples(2,3) by (auto simp: less_Suc_eq weight_filter_def)
  have "spec_curvature_loss (zip ?names (zip ?lg ?lgn)) = Inr 2"
    using weight_filter_examples
    by (simp add: mse_loss_def broadcast2_def mean_def lambda_hero_def)
  with hero_loop_ignores_bias_and_bn [OF l same] show ?thesis by simp
qed

section \<open>The gradient of the descent step, errors and the logged losses\<close>

lemma pass_losses_demo:
  "pass_losses demo_policy (demo_config c r) demo_rollout [\<lparr>pname = n, data = [x], grad = g\<rparr>] =
     Inr \<lparr>policy_loss = 0, value_loss = x\<^sup>2, entropy_loss = 0, loss = x\<^sup>2\<rparr>"
  by (simp add: pass_losses_def demo_policy_def demo_config_def demo_rollout_def
      compute_losses_def broadcast2_def mse_loss_def mean_def)

lemma demo_backward:
  "backward (loss_grad demo_policy [[x]]) [\<lparr>pname = n, data = [x], grad = g\<rparr>] =
     [\<lparr>pname = n, data = [x], grad = accumulate g (Some [2 * x])\<rparr>]"
  by (simp add: demo_policy_def)

lemma demo_first_step:
  "first_step r True True tn [\<lparr>pname = n, data = [1], grad = Some [2]\<rparr>] =
     ([\<lparr>pname = n, data = [1 + demo_scale r * 2], grad = (if tn then None else Some [0])\<rparr>], [[1]])"
  by (simp add: first_step_def Let_def grad_norm_def scaled_grad_def sum_squares_def
      perturb_def zero_grad_def demo_scale_def)

lemma demo_hero_first_pass:
  "hero_first_pass demo_policy (demo_config c r) demo_params =
     Inr ([\<lparr>pname = ''value_net.weight'', data = [1 + demo_scale r * 2], grad = None\<rparr>],
          [[1]], [[2]])"
  unfolding hero_first_pass_def demo_params_def Let_def
  by (simp add: demo_backward accumulate_def adaptive_def demo_first_step)
     (simp add: demo_config_def demo_first_step)

lemma demo_hero_second_pass:
  "hero_second_pass demo_policy (demo_config c r) demo_rollout
       [\<lparr>pname = n, data = [x], grad = g\<rparr>] = Inr [[2 * x]]"
  by (simp add: hero_second_pass_def pass_losses_demo) (simp add: demo_policy_def)

lemma demo_hero_loop:
  "hero_loop [''value_net.weight''] [[a]] [[b]] =
     Inr (HeroTensor ((b - a)\<^sup>2) (Map.empty(0 \<mapsto> [2 * (b - a)])))"
  by (simp add: hero_loop_def weight_filter_def sublist_code hero_add_def mse_loss_def
      broadcast2_def mean_def mse_loss_grad_def lambda_hero_def)

lemma demo_hero_backward:
  "hero_backward demo_policy [\<lparr>pname = ''value_net.weight'', data = [x], grad = None\<rparr>] [[a]] [[b]] =
     Inr [\<lparr>pname = ''value_net.weight'', data = [x], grad = Some [4 * (b - a)]\<rparr>]"
  by (simp add: hero_backward_def demo_hero_loop)
     (simp add: demo_policy_def accumulate_def)

lemma demo_hero_prepare:
  "hero_prepare demo_policy (demo_config c r) demo_rollout demo_params =
     Inr ([\<lparr>pname = ''value_net.weight'', data = [1 + demo_scale r * 2],
            grad = Some [4 * (2 * (1 + demo_scale r * 2) - 2) + 2 * (1 + demo_scale r * 2)]\<rparr>],
          [[1]])"
  by (simp add: hero_prepare_def demo_hero_first_pass demo_hero_second_pass
      demo_hero_backward iadd_def)

lemma add_grads_length: "add_grads ps gs = Inr ps' \<Longrightarrow> length ps' = length ps"
  by (induction ps gs arbitrary: ps' rule: add_grads.induct)
     (auto split: option.splits sum.splits prod.splits)

lemma add_grads_nth:
  "add_grads ps gs = Inr ps' \<Longrightarrow> i < length ps \<Longrightarrow> i < length gs \<Longrightarrow>
   \<exists>h s. grad (ps ! i) = Some h \<and> iadd h (gs ! i) = Inr s \<and> ps' ! i = (ps ! i)\<lparr>grad := Some s\<rparr>"
proof (induction ps gs arbitrary: ps' i rule: add_grads.induct)
  case (3 p ps g gs)
  from "3.prems"(1) obtain pg s rest where
    pg: "grad p = Some pg" and s: "iadd pg g = Inr s" and
    rest: "add_grads ps gs = Inr rest" and ps': "ps' = p\<lparr>grad := Some s\<rparr> # rest"
    by (auto split: option.splits sum.splits prod.splits)
  show ?case
  proof (cases i)
    case 0
    then show ?thesis using pg s ps' by simp
  next
    case (Suc j)
    then show ?thesis
      using "3.IH" [OF pg s rest, of j] "3.prems"(2,3) ps' by simp
  qed
qed simp_all

lemma iadd_same_length: "iadd h g = Inr s \<Longrightarrow> length h = length g \<Longrightarrow> s = map2 (+) h g"
  by (simp add: iadd_def)

text \<open>
  C1 (as the code has it). When the HERO branch reaches its descent step, the gradient of
  every parameter is the gradient that \<^verbatim>\<open>hero_loss.backward()\<close> left there plus, element by
  element, \<^verbatim>\<open>loss_grads_copy\<close>: the detached copy of the gradient that line 222 computes
  at the perturbed parameters. The detached gradient of the first pass, \<^verbatim>\<open>loss_grads\<close>,
  enters the curvature loss only.
\<close>

theorem hero_descent_gradient:
  assumes "hero_prepare pol cfg rollout ps = Inr (ps4, old_p)"
  shows "\<exists>ps2 loss_grads loss_grads_copy ps3.
     hero_first_pass pol cfg ps = Inr (ps2, old_p, loss_grads) \<and>
     autograd_grad (loss_grad pol (map data ps2)) = Inr loss_grads_copy \<and>
     hero_backward pol ps2 loss_grads loss_grads_copy = Inr ps3 \<and>
     length ps4 = length ps3 \<and>
     (\<forall>i. i < length ps3 \<and> i < length loss_grads_copy \<longrightarrow>
        (\<exists>h s. grad (ps3 ! i) = Some h \<and> iadd h (loss_grads_copy ! i) = Inr s \<and>
               grad (ps4 ! i) = Some s \<and>
               (length h = length (loss_grads_copy ! i) \<longrightarrow> s = map2 (+) h (loss_grads_copy ! i))))"
proof -
  from assms obtain ps2 lg lgn ps3 where
    fp: "hero_first_pass pol cfg ps = Inr (ps2, old_p, lg)" and
    sp: "hero_second_pass pol cfg rollout ps2 = Inr lgn" and
    hb: "hero_backward pol ps2 lg lgn = Inr ps3" and
    ag: "add_grads ps3 lgn = Inr ps4"
    by (auto simp: hero_prepare_def Let_def split: sum.splits prod.splits)
  from sp have gr: "autograd_grad (loss_grad pol (map data ps2)) = Inr lgn"
    by (simp add: hero_second_pass_def split: sum.splits)
  have len: "length ps4 = length ps3" using ag by (rule add_grads_length)
  have "\<exists>h s. grad (ps3 ! i) = Some h \<and> iadd h (lgn ! i) = Inr s \<and> grad (ps4 ! i) = Some s \<and>
               (length h = length (lgn ! i) \<longrightarrow> s = map2 (+) h (lgn ! i))"
    if "i < length ps3 \<and> i < length lgn" for i
  proof -
    from add_grads_nth [OF ag] that obtain h s where
      "grad (ps3 ! i) = Some h" "iadd h (lgn ! i) = Inr s" "ps4 ! i = (ps3 ! i)\<lparr>grad := Some s\<rparr>"
      by blast
    then show ?thesis by (auto dest: iadd_same_length)
  qed
  with fp gr hb len show ?thesis by blast
qed

theorem hero_descent_gradient_witness:
  "hero_prepare demo_policy (demo_config ''HERO'' (1 / 20)) demo_rollout demo_params =
     Inr ([\<lparr>pname = ''value_net.weight'', data = [1 + demo_scale (1 / 20) * 2],
            grad = Some [16 * demo_scale (1 / 20) + 2 * (1 + demo_scale (1 / 20) * 2)]\<rparr>], [[1]]) \<and>
   autograd_grad (loss_grad demo_policy [[1 + demo_scale (1 / 20) * 2]]) =
     Inr [[2 * (1 + demo_scale (1 / 20) * 2)]] \<and>
   hero_backward demo_policy
     [\<lparr>pname = ''value_net.weight'', data = [1 + demo_scale (1 / 20) * 2], grad = None\<rparr>]
     [[2]] [[2 * (1 + demo_scale (1 / 20) * 2)]] =
     Inr [\<lparr>pname = ''value_net.weight'', data = [1 + demo_scale (1 / 20) * 2],
            grad = Some [16 * demo_scale (1 / 20)]\<rparr>]"
proof -
  let ?w = "1 + demo_scale (1 / 20) * 2"
  let ?cfg = "demo_config ''HERO'' (1 / 20)"
  have hp: "hero_prepare demo_policy ?cfg demo_rollout demo_params =
     Inr ([\<lparr>pname = ''value_net.weight'', data = [?w],
            grad = Some [16 * demo_scale (1 / 20) + 2 * ?w]\<rparr>], [[1]])"
    by (simp add: demo_hero_prepare)
  from hero_descent_gradient [OF hp] obtain ps2 lg lgc ps3 where
    "hero_first_pass demo_policy ?cfg demo_params = Inr (ps2, [[1]], lg)"
    "autograd_grad (loss_grad demo_policy (map data ps2)) = Inr lgc"
    "hero_backward demo_policy ps2 lg lgc = Inr ps3"
    by blast
  then have "autograd_grad (loss_grad demo_policy [[?w]]) = Inr lgc \<and>
    hero_backward demo_policy
     [\<lparr>pname = ''value_net.weight'', data = [?w], grad = None\<rparr>] [[2]] lgc = Inr ps3"
    by (auto simp: demo_hero_first_pass)
  moreover have "autograd_grad (loss_grad demo_policy [[?w]]) = Inr [[2 * ?w]]"
    by (simp add: demo_policy_def)
  ultimately show ?thesis
    using hp by (auto simp: demo_hero_backward)
qed

text \<open>
  C1 as stated fails: for a loss \<open>w\<^sup>2\<close> of one parameter \<open>w = 1\<close> and \<open>rho = 0.05\<close>
  the first pass leaves the gradient 2, the curvature gradient is \<open>16 * s\<close> with \<open>s\<close> the
  scale of the perturbation, and the descent step uses \<open>16 * s + 2 * (1 + 2 * s)\<close>, which
  is not \<open>16 * s + 2\<close>.
\<close>

theorem hero_adds_first_pass_gradient_counterexample:
  "hero_first_pass demo_policy (demo_config ''HERO'' (1 / 20)) demo_params =
     Inr ([\<lparr>pname = ''value_net.weight'', data = [1 + demo_scale (1 / 20) * 2], grad = None\<rparr>],
          [[1]], [[2]]) \<and>
   hero_backward demo_policy
     [\<lparr>pname = ''value_net.weight'', data = [1 + demo_scale (1 / 20) * 2], grad = None\<rparr>]
     [[2]] [[2 * (1 + demo_scale (1 / 20) * 2)]] =
     Inr [\<lparr>pname = ''value_net.weight'', data = [1 + demo_scale (1 / 20) * 2],
            grad = Some [16 * demo_scale (1 / 20)]\<rparr>] \<and>
   hero_prepare demo_policy (demo_config ''HERO'' (1 / 20)) demo_rollout demo_params =
     Inr ([\<lparr>pname = ''value_net.weight'', data = [1 + demo_scale (1 / 20) * 2],
            grad = Some [16 * demo_scale (1 / 20) + 2 * (1 + demo_scale (1 / 20) * 2)]\<rparr>], [[1]]) \<and>
   [16 * demo_scale (1 / 20) + 2 * (1 + demo_scale (1 / 20) * 2)] \<noteq>
     map2 (+) [16 * demo_scale (1 / 20)] [2]"
proof -
  have "demo_scale (1 / 20) \<noteq> 0" by (simp add: demo_scale_def)
  then show ?thesis
    by (simp add: demo_hero_first_pass demo_hero_backward demo_hero_prepare)
qed

lemma mse_loss_error_iff:
  "mse_loss a b = Inl e \<longleftrightarrow>
     e = RuntimeError \<and> length a \<noteq> length b \<and> length a \<noteq> 1 \<and> length b \<noteq> 1"
  by (auto simp: mse_loss_def broadcast2_def split: sum.splits if_splits)

lemma spec_curvature_loss_error_kind:
  "spec_curvature_loss ts = Inl e \<Longrightarrow> e = RuntimeError"
proof (induction ts)
  case (Cons t ts)
  obtain name g gn where t: "t = (name, g, gn)" by (cases t)
  from Cons show ?case
    by (auto simp: t mse_loss_error_iff split: if_splits sum.splits)
qed simp










lemma pass_losses_demo2:
  "pass_losses demo_policy (demo_config c r) demo_rollout
     [\<lparr>pname = n, data = [x], grad = g\<rparr>, \<lparr>pname = n', data = [y], grad = g'\<rparr>] =
     Inr \<lparr>policy_loss = 0, value_loss = x\<^sup>2, entropy_loss = 0, loss = x\<^sup>2\<rparr>"
  by (simp add: pass_losses_def demo_policy_def demo_config_def demo_rollout_def
      compute_losses_def broadcast2_def mse_loss_def mean_def)

lemma clone_grads_None:
  "p \<in> set ps \<Longrightarrow> grad p = None \<Longrightarrow> clone_grads ps = Inl AttributeError"
  by (induction ps) (auto split: option.splits sum.splits)

lemma autograd_grad_None:
  "None \<in> set gs \<Longrightarrow> autograd_grad gs = Inl RuntimeError"
  by (induction gs rule: autograd_grad.induct) (auto split: sum.splits)

text \<open>
  C5. A parameter that the loss does not use makes the HERO step fail instead of being
  skipped. When its gradient is \<^verbatim>\<open>None\<close> at entry, line 189 raises \<^verbatim>\<open>AttributeError\<close>; when
  an earlier \<^verbatim>\<open>zero_grad\<close> left it a zero gradient, line 222 raises \<^verbatim>\<open>RuntimeError\<close>, with
  the parameters left at the perturbed point. The test of line 233 is never reached with
  a missing gradient.
\<close>

theorem hero_missing_gradient_raises:
  "train demo_policy (demo_config ''HERO'' (1 / 20)) demo_rollout unused_params =
     Inl (AttributeError,
          [\<lparr>pname = ''value_net.weight'', data = [1], grad = Some [2]\<rparr>,
           \<lparr>pname = ''extra.weight'', data = [5], grad = None\<rparr>]) \<and>
   train demo_policy (demo_config ''HERO'' (1 / 20)) demo_rollout stale_params =
     Inl (RuntimeError,
          [\<lparr>pname = ''value_net.weight'', data = [1 + demo_scale (1 / 20) * 2], grad = None\<rparr>,
           \<lparr>pname = ''extra.weight'', data = [5], grad = None\<rparr>])"
proof -
  let ?cfg = "demo_config ''HERO'' (1 / 20)"
  have c: "optimize_choice ?cfg = ''HERO''" "set_to_none ?cfg" "rho ?cfg = 1 / 20"
    by (simp_all add: demo_config_def)
  have b1: "backward (loss_grad demo_policy (map data unused_params)) unused_params =
      [\<lparr>pname = ''value_net.weight'', data = [1], grad = Some [2]\<rparr>,
       \<lparr>pname = ''extra.weight'', data = [5], grad = None\<rparr>]"
    by (simp add: unused_params_def demo_policy_def accumulate_def)
  have f1: "hero_first_pass demo_policy ?cfg unused_params =
      Inl (AttributeError, [\<lparr>pname = ''value_net.weight'', data = [1], grad = Some [2]\<rparr>,
       \<lparr>pname = ''extra.weight'', data = [5], grad = None\<rparr>])"
    by (simp add: hero_first_pass_def b1)
  have t1: "train demo_policy ?cfg demo_rollout unused_params =
      Inl (AttributeError, [\<lparr>pname = ''value_net.weight'', data = [1], grad = Some [2]\<rparr>,
       \<lparr>pname = ''extra.weight'', data = [5], grad = None\<rparr>])"
  proof -
    have pl: "pass_losses demo_policy ?cfg demo_rollout unused_params =
        Inr \<lparr>policy_loss = 0, value_loss = 1\<^sup>2, entropy_loss = 0, loss = 1\<^sup>2\<rparr>"
      unfolding unused_params_def by (rule pass_losses_demo2)
    show ?thesis
      by (simp add: train_def train_hero_def hero_prepare_def f1 c pl)
  qed
  let ?ps2 = "[\<lparr>pname = ''value_net.weight'', data = [1 + demo_scale (1 / 20) * 2], grad = None\<rparr>,
           \<lparr>pname = ''extra.weight'', data = [5], grad = None\<rparr>]"
  have b2: "backward (loss_grad demo_policy (map data stale_params)) stale_params =
      [\<lparr>pname = ''value_net.weight'', data = [1], grad = Some [2]\<rparr>,
       \<lparr>pname = ''extra.weight'', data = [5], grad = Some [0]\<rparr>]"
    by (simp add: stale_params_def demo_policy_def accumulate_def)
  have fs: "first_step (1 / 20) True True True
      [\<lparr>pname = ''value_net.weight'', data = [1], grad = Some [2]\<rparr>,
       \<lparr>pname = ''extra.weight'', data = [5], grad = Some [0]\<rparr>] = (?ps2, [[1], [5]])"
    by (simp add: first_step_def Let_def grad_norm_def scaled_grad_def sum_squares_def
      perturb_def zero_grad_def demo_scale_def)
  have f2: "hero_first_pass demo_policy ?cfg stale_params = Inr (?ps2, [[1], [5]], [[2], [0]])"
    by (simp add: hero_first_pass_def b2 c adaptive_def fs)
  have s2: "hero_second_pass demo_policy ?cfg demo_rollout ?ps2 = Inl RuntimeError"
    by (simp add: hero_second_pass_def pass_losses_demo2) (simp add: demo_policy_def)
  have t2: "train demo_policy ?cfg demo_rollout stale_params = Inl (RuntimeError, ?ps2)"
  proof -
    have pl: "pass_losses demo_policy ?cfg demo_rollout stale_params =
        Inr \<lparr>policy_loss = 0, value_loss = 1\<^sup>2, entropy_loss = 0, loss = 1\<^sup>2\<rparr>"
      unfolding stale_params_def by (rule pass_losses_demo2)
    show ?thesis
      by (simp add: train_def train_hero_def hero_prepare_def f2 s2 c pl)
  qed
  from t1 t2 show ?thesis by (rule conjI)
qed

text \<open>
  C10. Whatever \<^verbatim>\<open>optimize_choice\<close> is, the three losses that a completed step logs are
  those of the first pass, computed at the parameter values the step started from.
\<close>

theorem train_logs_first_pass_losses:
  assumes "train pol cfg rollout ps = Inr (ps', m)"
  shows "\<exists>L. pass_losses pol cfg rollout ps = Inr L \<and>
           train_entropy_loss m = entropy_loss L \<and>
           train_policy_loss m = policy_loss L \<and>
           train_value_loss m = value_loss L"
  using assms by (auto simp: train_def split: sum.splits)

lemma demo_second_step:
  "second_step gd_step True True [[1]] [\<lparr>pname = n, data = [x], grad = Some [g]\<rparr>] =
     [\<lparr>pname = n, data = [1 - g / 10], grad = None\<rparr>]"
  by (simp add: second_step_def gd_step_def zero_grad_def)

lemma demo_train_hero:
  "train demo_policy (demo_config ''HERO'' r) demo_rollout demo_params =
     Inr ([\<lparr>pname = ''value_net.weight'',
            data = [1 - (4 * (2 * (1 + demo_scale r * 2) - 2) + 2 * (1 + demo_scale r * 2)) / 10],
            grad = None\<rparr>],
          \<lparr>train_entropy_loss = 0, train_policy_loss = 0, train_value_loss = 1\<rparr>)"
proof -
  have c: "optimize_choice (demo_config ''HERO'' r) = ''HERO''"
    "set_to_none (demo_config ''HERO'' r)" "sgd_step demo_policy = gd_step"
    by (simp_all add: demo_config_def demo_policy_def)
  have pl: "pass_losses demo_policy (demo_config ''HERO'' r) demo_rollout demo_params =
      Inr \<lparr>policy_loss = 0, value_loss = 1\<^sup>2, entropy_loss = 0, loss = 1\<^sup>2\<rparr>"
    unfolding demo_params_def by (rule pass_losses_demo)
  show ?thesis
    by (simp add: train_def train_hero_def demo_hero_prepare c pl demo_second_step)
qed

theorem train_logs_first_pass_losses_witness:
  "train demo_policy (demo_config ''HERO'' (1 / 20)) demo_rollout demo_params =
     Inr ([\<lparr>pname = ''value_net.weight'',
            data = [1 - (20 * demo_scale (1 / 20) + 2) / 10], grad = None\<rparr>],
          \<lparr>train_entropy_loss = 0, train_policy_loss = 0, train_value_loss = 1\<rparr>) \<and>
   pass_losses demo_policy (demo_config ''HERO'' (1 / 20)) demo_rollout demo_params =
     Inr \<lparr>policy_loss = 0, value_loss = 1, entropy_loss = 0, loss = 1\<rparr> \<and>
   pass_losses demo_policy (demo_config ''HERO'' (1 / 20)) demo_rollout
     [\<lparr>pname = ''value_net.weight'', data = [1 + demo_scale (1 / 20) * 2], grad = None\<rparr>] =
     Inr \<lparr>policy_loss = 0, value_loss = (1 + demo_scale (1 / 20) * 2)\<^sup>2, entropy_loss = 0,
          loss = (1 + demo_scale (1 / 20) * 2)\<^sup>2\<rparr> \<and>
   (1 + demo_scale (1 / 20) * 2)\<^sup>2 \<noteq> 1"
proof -
  let ?cfg = "demo_config ''HERO'' (1 / 20)"
  have t: "train demo_policy ?cfg demo_rollout demo_params =
     Inr ([\<lparr>pname = ''value_net.weight'',
            data = [1 - (20 * demo_scale (1 / 20) + 2) / 10], grad = None\<rparr>],
          \<lparr>train_entropy_loss = 0, train_policy_loss = 0, train_value_loss = 1\<rparr>)"
    by (simp add: demo_train_hero)
  from train_logs_first_pass_losses [OF t] obtain L where
    L: "pass_losses demo_policy ?cfg demo_rollout demo_params = Inr L"
    "entropy_loss L = 0" "policy_loss L = 0" "value_loss L = 1"
    by auto
  have first: "pass_losses demo_policy ?cfg demo_rollout demo_params =
     Inr \<lparr>policy_loss = 0, value_loss = 1, entropy_loss = 0, loss = 1\<rparr>"
    using L by (simp add: demo_params_def pass_losses_demo)
  have "0 < demo_scale (1 / 20)" by (simp add: demo_scale_def)
  then have "1 < 1 + demo_scale (1 / 20) * 2" by simp
  then have "1\<^sup>2 < (1 + demo_scale (1 / 20) * 2)\<^sup>2"
    by (intro power_strict_mono) simp_all
  then have ne: "(1 + demo_scale (1 / 20) * 2)\<^sup>2 \<noteq> 1" by simp
  show ?thesis
    using t first ne by (simp add: pass_losses_demo)
qed

section \<open>Clipping and the choice of the branch\<close>

lemma sum_squares_scale: "sum_squares (map (\<lambda>x. x * c) g) = c\<^sup>2 * sum_squares g"
  by (induction g) (simp_all add: sum_squares_def power_mult_distrib algebra_simps)

lemma sum_squares_nonneg: "0 \<le> sum_squares g"
  unfolding sum_squares_def by (rule sum_list_nonneg) auto

lemma total_norm_scale:
  "0 \<le> c \<Longrightarrow>
   total_norm (map (\<lambda>p. p\<lparr>grad := map_option (map (\<lambda>x. x * c)) (grad p)\<rparr>) ps) =
     c * total_norm ps"
proof -
  assume c: "0 \<le> c"
  have "(\<Sum>p\<leftarrow>ps. case map_option (map (\<lambda>x. x * c)) (grad p) of None \<Rightarrow> 0
            | Some g \<Rightarrow> sum_squares g) =
        c\<^sup>2 * (\<Sum>p\<leftarrow>ps. case grad p of None \<Rightarrow> 0 | Some g \<Rightarrow> sum_squares g)"
    by (induction ps) (auto simp: sum_squares_scale algebra_simps split: option.splits)
  then show ?thesis
    using c by (simp add: total_norm_def o_def real_sqrt_mult)
qed

lemma total_norm_nonneg: "0 \<le> total_norm ps"
proof -
  have "0 \<le> (\<Sum>p\<leftarrow>ps. case grad p of None \<Rightarrow> 0 | Some g \<Rightarrow> sum_squares g)"
    by (rule sum_list_nonneg) (auto simp: sum_squares_nonneg split: option.splits)
  then show ?thesis by (simp add: total_norm_def)
qed

lemma clip_grad_norm_bound:
  assumes "0 \<le> max_norm"
  shows "total_norm (clip_grad_norm max_norm ps) \<le> max_norm"
proof -
  let ?N = "total_norm ps"
  let ?c = "min (max_norm / (?N + 1 / 10 ^ 6)) 1"
  have N: "0 \<le> ?N" by (rule total_norm_nonneg)
  have pos: "0 < ?N + 1 / 10 ^ 6" using N by (simp add: add_nonneg_pos)
  have c0: "0 \<le> ?c" using assms pos by simp
  have "total_norm (clip_grad_norm max_norm ps) = ?c * ?N"
    unfolding clip_grad_norm_def Let_def using c0 by (rule total_norm_scale)
  also have "\<dots> \<le> max_norm / (?N + 1 / 10 ^ 6) * ?N"
    using N by (intro mult_right_mono) simp_all
  also have "\<dots> = max_norm * (?N / (?N + 1 / 10 ^ 6))" by simp
  also have "\<dots> \<le> max_norm * 1"
    using assms pos by (intro mult_left_mono) (simp_all add: divide_le_eq)
  finally show ?thesis by simp
qed

lemma compute_losses_max_grad_norm:
  "compute_losses (cfg\<lparr>max_grad_norm := m\<rparr>) ev rollout = compute_losses cfg ev rollout"
  by (simp add: compute_losses_def Let_def split: prod.splits sum.splits)

lemma pass_losses_max_grad_norm:
  "pass_losses pol (cfg\<lparr>max_grad_norm := m\<rparr>) rollout ps = pass_losses pol cfg rollout ps"
  by (simp add: pass_losses_def compute_losses_max_grad_norm)

lemma hero_first_pass_max_grad_norm:
  "hero_first_pass pol (cfg\<lparr>max_grad_norm := m\<rparr>) ps = hero_first_pass pol cfg ps"
  by (simp add: hero_first_pass_def Let_def cong: sum.case_cong)

lemma hero_second_pass_max_grad_norm:
  "hero_second_pass pol (cfg\<lparr>max_grad_norm := m\<rparr>) rollout ps = hero_second_pass pol cfg rollout ps"
  by (simp add: hero_second_pass_def pass_losses_max_grad_norm)

lemma hero_prepare_max_grad_norm:
  "hero_prepare pol (cfg\<lparr>max_grad_norm := m\<rparr>) rollout ps = hero_prepare pol cfg rollout ps"
  by (simp add: hero_prepare_def hero_first_pass_max_grad_norm hero_second_pass_max_grad_norm
      cong: sum.case_cong prod.case_cong)

lemma sam_prepare_max_grad_norm:
  "sam_prepare pol (cfg\<lparr>max_grad_norm := m\<rparr>) rollout ps = sam_prepare pol cfg rollout ps"
  by (simp add: sam_prepare_def pass_losses_max_grad_norm Let_def cong: sum.case_cong prod.case_cong)

lemma train_hero_max_grad_norm:
  "train_hero pol (cfg\<lparr>max_grad_norm := m\<rparr>) rollout ps = train_hero pol cfg rollout ps"
  by (simp add: train_hero_def hero_prepare_max_grad_norm cong: sum.case_cong prod.case_cong)

lemma train_sam_max_grad_norm:
  "train_sam pol (cfg\<lparr>max_grad_norm := m\<rparr>) rollout ps = train_sam pol cfg rollout ps"
  by (simp add: train_sam_def sam_prepare_max_grad_norm cong: sum.case_cong prod.case_cong)

text \<open>
  C2. The gradients are clipped in the base branch and in no other. When
  \<^verbatim>\<open>optimize_choice\<close> is neither \<^verbatim>\<open>"HERO"\<close> nor \<^verbatim>\<open>"SAM"\<close> (line 276 is an \<^verbatim>\<open>else\<close>, so
  this is \<^verbatim>\<open>"base"\<close> and every other string), the step is one backward pass on the loss
  (after \<^verbatim>\<open>zero_grad\<close>), the clipping of the gradients at \<^verbatim>\<open>max_grad_norm\<close> and one step of
  the optimizer of the policy; after the clipping the norm of all gradients is at most
  \<^verbatim>\<open>max_grad_norm\<close>. In the SAM branch \<^verbatim>\<open>second_step\<close> receives the parameters as the
  backward pass of the second loss left them, and in the HERO branch as the addition of
  \<^verbatim>\<open>loss_grads_copy\<close> (lines 236 and 237) left them: no clipping stands between the
  gradient and the descent step. In both, \<^verbatim>\<open>max_grad_norm\<close> is not read: the result of the
  step is the same for every value of it.
\<close>

theorem clipping_only_in_base_branch:
  "(optimize_choice cfg \<noteq> ''HERO'' \<and> optimize_choice cfg \<noteq> ''SAM'' \<longrightarrow>
      train pol cfg rollout ps =
        (case pass_losses pol cfg rollout ps of
           Inl e \<Rightarrow> Inl (e, ps)
         | Inr L \<Rightarrow>
             Inr (optimizer_step pol
                    (clip_grad_norm (max_grad_norm cfg)
                       (backward (loss_grad pol (map data ps)) (zero_grad (set_to_none cfg) ps))),
                  \<lparr>train_entropy_loss = entropy_loss L, train_policy_loss = policy_loss L,
                   train_value_loss = value_loss L\<rparr>)) \<and>
      (0 \<le> max_grad_norm cfg \<longrightarrow>
         total_norm (clip_grad_norm (max_grad_norm cfg)
            (backward (loss_grad pol (map data ps)) (zero_grad (set_to_none cfg) ps)))
           \<le> max_grad_norm cfg)) \<and>
   (optimize_choice cfg = ''SAM'' \<longrightarrow>
      train pol cfg rollout ps =
        (case pass_losses pol cfg rollout ps of
           Inl e \<Rightarrow> Inl (e, ps)
         | Inr L \<Rightarrow>
             (case first_step (rho cfg) adaptive True (set_to_none cfg)
                     (backward (loss_grad pol (map data ps)) ps) of
                (ps2, old_p) \<Rightarrow>
                  (case pass_losses pol cfg rollout ps2 of
                     Inl e \<Rightarrow> Inl (e, ps2)
                   | Inr L_new \<Rightarrow>
                       Inr (second_step (sgd_step pol) True (set_to_none cfg) old_p
                              (backward (loss_grad pol (map data ps2)) ps2),
                            \<lparr>train_entropy_loss = entropy_loss L,
                             train_policy_loss = policy_loss L,
                             train_value_loss = value_loss L\<rparr>))))) \<and>
   (optimize_choice cfg = ''HERO'' \<longrightarrow>
      train pol cfg rollout ps =
        (case pass_losses pol cfg rollout ps of
           Inl e \<Rightarrow> Inl (e, ps)
         | Inr L \<Rightarrow>
             (case hero_first_pass pol cfg ps of
                Inl e \<Rightarrow> Inl e
              | Inr (ps2, old_p, loss_grads) \<Rightarrow>
                  (case hero_second_pass pol cfg rollout ps2 of
                     Inl e \<Rightarrow> Inl (e, ps2)
                   | Inr loss_grads_new \<Rightarrow>
                       (case hero_backward pol ps2 loss_grads loss_grads_new of
                          Inl e \<Rightarrow> Inl (e, ps2)
                        | Inr ps3 \<Rightarrow>
                            (case add_grads ps3 loss_grads_new of
                               Inl e \<Rightarrow> Inl e
                             | Inr ps4 \<Rightarrow>
                                 Inr (second_step (sgd_step pol) True (set_to_none cfg) old_p ps4,
                                      \<lparr>train_entropy_loss = entropy_loss L,
                                       train_policy_loss = policy_loss L,
                                       train_value_loss = value_loss L\<rparr>))))))) \<and>
   (optimize_choice cfg = ''SAM'' \<or> optimize_choice cfg = ''HERO'' \<longrightarrow>
      train pol (cfg\<lparr>max_grad_norm := m\<rparr>) rollout ps = train pol cfg rollout ps)"
proof -
  have base: "train pol cfg rollout ps =
        (case pass_losses pol cfg rollout ps of
           Inl e \<Rightarrow> Inl (e, ps)
         | Inr L \<Rightarrow>
             Inr (optimizer_step pol
                    (clip_grad_norm (max_grad_norm cfg)
                       (backward (loss_grad pol (map data ps)) (zero_grad (set_to_none cfg) ps))),
                  \<lparr>train_entropy_loss = entropy_loss L, train_policy_loss = policy_loss L,
                   train_value_loss = value_loss L\<rparr>))"
    if "optimize_choice cfg \<noteq> ''HERO'' \<and> optimize_choice cfg \<noteq> ''SAM''"
    using that by (simp add: train_def train_base_def base_grads_def split: sum.splits)
  have bound: "total_norm (clip_grad_norm (max_grad_norm cfg)
            (backward (loss_grad pol (map data ps)) (zero_grad (set_to_none cfg) ps)))
           \<le> max_grad_norm cfg" if "0 \<le> max_grad_norm cfg"
    using that by (rule clip_grad_norm_bound)
  have sam: "train pol cfg rollout ps =
        (case pass_losses pol cfg rollout ps of
           Inl e \<Rightarrow> Inl (e, ps)
         | Inr L \<Rightarrow>
             (case first_step (rho cfg) adaptive True (set_to_none cfg)
                     (backward (loss_grad pol (map data ps)) ps) of
                (ps2, old_p) \<Rightarrow>
                  (case pass_losses pol cfg rollout ps2 of
                     Inl e \<Rightarrow> Inl (e, ps2)
                   | Inr L_new \<Rightarrow>
                       Inr (second_step (sgd_step pol) True (set_to_none cfg) old_p
                              (backward (loss_grad pol (map data ps2)) ps2),
                            \<lparr>train_entropy_loss = entropy_loss L,
                             train_policy_loss = policy_loss L,
                             train_value_loss = value_loss L\<rparr>))))"
    if "optimize_choice cfg = ''SAM''"
    using that
    by (simp add: train_def train_sam_def sam_prepare_def Let_def split: sum.splits prod.splits)
  have hero: "train pol cfg rollout ps =
        (case pass_losses pol cfg rollout ps of
           Inl e \<Rightarrow> Inl (e, ps)
         | Inr L \<Rightarrow>
             (case hero_first_pass pol cfg ps of
                Inl e \<Rightarrow> Inl e
              | Inr (ps2, old_p, loss_grads) \<Rightarrow>
                  (case hero_second_pass pol cfg rollout ps2 of
                     Inl e \<Rightarrow> Inl (e, ps2)
                   | Inr loss_grads_new \<Rightarrow>
                       (case hero_backward pol ps2 loss_grads loss_grads_new of
                          Inl e \<Rightarrow> Inl (e, ps2)
                        | Inr ps3 \<Rightarrow>
                            (case add_grads ps3 loss_grads_new of
                               Inl e \<Rightarrow> Inl e
                             | Inr ps4 \<Rightarrow>
                                 Inr (second_step (sgd_step pol) True (set_to_none cfg) old_p ps4,
                                      \<lparr>train_entropy_loss = entropy_loss L,
                                       train_policy_loss = policy_loss L,
                                       train_value_loss = value_loss L\<rparr>))))))"
    if "optimize_choice cfg = ''HERO''"
    using that
    by (simp add: train_def train_hero_def hero_prepare_def Let_def
        split: sum.splits prod.splits)
  have inv: "train pol (cfg\<lparr>max_grad_norm := m\<rparr>) rollout ps = train pol cfg rollout ps"
    if "optimize_choice cfg = ''SAM'' \<or> optimize_choice cfg = ''HERO''"
    using that
    by (auto simp: train_def pass_losses_max_grad_norm train_hero_max_grad_norm
        train_sam_max_grad_norm cong: sum.case_cong)
  from base bound sam hero inv show ?thesis by blast
qed

lemma demo_clip:
  "clip_grad_norm (1 / 2) [\<lparr>pname = n, data = [x], grad = Some [2]\<rparr>] =
     [\<lparr>pname = n, data = [x], grad = Some [2 * demo_clip]\<rparr>]"
  by (simp add: clip_grad_norm_def Let_def total_norm_def sum_squares_def demo_clip_def min_def)

lemma demo_base_grads:
  "backward (loss_grad demo_policy (map data demo_params))
     (zero_grad (set_to_none (demo_config c r)) demo_params) =
     [\<lparr>pname = ''value_net.weight'', data = [1], grad = Some [2]\<rparr>]"
  by (simp add: demo_params_def zero_grad_def demo_policy_def accumulate_def)

lemma demo_sam_prepare:
  "sam_prepare demo_policy (demo_config c r) demo_rollout demo_params =
     Inr ([\<lparr>pname = ''value_net.weight'', data = [1 + demo_scale r * 2],
            grad = Some [2 * (1 + demo_scale r * 2)]\<rparr>], [[1]])"
proof -
  have c: "rho (demo_config c r) = r" "set_to_none (demo_config c r)"
    by (simp_all add: demo_config_def)
  have b: "backward (loss_grad demo_policy (map data demo_params)) demo_params =
     [\<lparr>pname = ''value_net.weight'', data = [1], grad = Some [2]\<rparr>]"
    by (simp add: demo_params_def demo_backward accumulate_def)
  show ?thesis
    by (simp add: sam_prepare_def b c adaptive_def demo_first_step pass_losses_demo
        demo_backward accumulate_def)
qed

theorem clipping_only_in_base_branch_witness:
  "train demo_policy (demo_config ''base'' (1 / 20)) demo_rollout demo_params =
     Inr ([\<lparr>pname = ''value_net.weight'', data = [1 - 2 * demo_clip / 10],
            grad = Some [2 * demo_clip]\<rparr>],
          \<lparr>train_entropy_loss = 0, train_policy_loss = 0, train_value_loss = 1\<rparr>) \<and>
   total_norm [\<lparr>pname = ''value_net.weight'', data = [1], grad = Some [2 * demo_clip]\<rparr>] \<le> 1 / 2 \<and>
   train demo_policy (demo_config ''SAM'' (1 / 20)) demo_rollout demo_params =
     Inr (second_step gd_step True True [[1]]
            [\<lparr>pname = ''value_net.weight'', data = [1 + demo_scale (1 / 20) * 2],
              grad = Some [2 * (1 + demo_scale (1 / 20) * 2)]\<rparr>],
          \<lparr>train_entropy_loss = 0, train_policy_loss = 0, train_value_loss = 1\<rparr>) \<and>
   max_grad_norm (demo_config ''SAM'' (1 / 20)) <
     total_norm [\<lparr>pname = ''value_net.weight'', data = [1 + demo_scale (1 / 20) * 2],
                  grad = Some [2 * (1 + demo_scale (1 / 20) * 2)]\<rparr>] \<and>
   train demo_policy (demo_config ''HERO'' (1 / 20)) demo_rollout demo_params =
     Inr (second_step gd_step True True [[1]]
            [\<lparr>pname = ''value_net.weight'', data = [1 + demo_scale (1 / 20) * 2],
              grad = Some [16 * demo_scale (1 / 20) + 2 * (1 + demo_scale (1 / 20) * 2)]\<rparr>],
          \<lparr>train_entropy_loss = 0, train_policy_loss = 0, train_value_loss = 1\<rparr>) \<and>
   max_grad_norm (demo_config ''HERO'' (1 / 20)) <
     total_norm [\<lparr>pname = ''value_net.weight'', data = [1 + demo_scale (1 / 20) * 2],
                  grad = Some [16 * demo_scale (1 / 20) + 2 * (1 + demo_scale (1 / 20) * 2)]\<rparr>] \<and>
   train demo_policy ((demo_config ''SAM'' (1 / 20))\<lparr>max_grad_norm := 7\<rparr>) demo_rollout demo_params =
     train demo_policy (demo_config ''SAM'' (1 / 20)) demo_rollout demo_params"
proof -
  let ?b = "demo_config ''base'' (1 / 20)" and ?s = "demo_config ''SAM'' (1 / 20)"
    and ?h = "demo_config ''HERO'' (1 / 20)"
  let ?w = "1 + demo_scale (1 / 20) * 2"
  have cb: "optimize_choice ?b \<noteq> ''HERO'' \<and> optimize_choice ?b \<noteq> ''SAM''"
    and mb: "max_grad_norm ?b = 1 / 2" "0 \<le> max_grad_norm ?b"
    and os: "optimizer_step demo_policy = gd_step" "sgd_step demo_policy = gd_step"
    by (simp_all add: demo_config_def demo_policy_def)
  have cs: "optimize_choice ?s = ''SAM''" "rho ?s = 1 / 20" "set_to_none ?s"
    and ch: "optimize_choice ?h = ''HERO''" "set_to_none ?h"
    by (simp_all add: demo_config_def)
  have pl: "pass_losses demo_policy (demo_config c r) demo_rollout demo_params =
      Inr \<lparr>policy_loss = 0, value_loss = 1\<^sup>2, entropy_loss = 0, loss = 1\<^sup>2\<rparr>" for c r
    unfolding demo_params_def by (rule pass_losses_demo)
  note thm_b = clipping_only_in_base_branch [of ?b demo_policy demo_rollout demo_params 7]
  note thm_s = clipping_only_in_base_branch [of ?s demo_policy demo_rollout demo_params 7]
  note thm_h = clipping_only_in_base_branch [of ?h demo_policy demo_rollout demo_params 7]
  from thm_b cb have base:
    "train demo_policy ?b demo_rollout demo_params =
        (case pass_losses demo_policy ?b demo_rollout demo_params of
           Inl e \<Rightarrow> Inl (e, demo_params)
         | Inr L \<Rightarrow>
             Inr (optimizer_step demo_policy
                    (clip_grad_norm (max_grad_norm ?b)
                       (backward (loss_grad demo_policy (map data demo_params))
                          (zero_grad (set_to_none ?b) demo_params))),
                  \<lparr>train_entropy_loss = entropy_loss L, train_policy_loss = policy_loss L,
                   train_value_loss = value_loss L\<rparr>))"
    "0 \<le> max_grad_norm ?b \<longrightarrow>
         total_norm (clip_grad_norm (max_grad_norm ?b)
            (backward (loss_grad demo_policy (map data demo_params))
               (zero_grad (set_to_none ?b) demo_params)))
           \<le> max_grad_norm ?b"
    by blast+
  have t1: "train demo_policy ?b demo_rollout demo_params =
     Inr ([\<lparr>pname = ''value_net.weight'', data = [1 - 2 * demo_clip / 10],
            grad = Some [2 * demo_clip]\<rparr>],
          \<lparr>train_entropy_loss = 0, train_policy_loss = 0, train_value_loss = 1\<rparr>)"
    unfolding base(1) by (simp add: pl demo_base_grads mb os demo_clip) (simp add: gd_step_def)
  have t2: "total_norm [\<lparr>pname = ''value_net.weight'', data = [1], grad = Some [2 * demo_clip]\<rparr>]
      \<le> 1 / 2"
    using base(2) by (simp add: demo_base_grads mb demo_clip)
  from thm_s cs(1) have sam:
    "train demo_policy ?s demo_rollout demo_params =
        (case pass_losses demo_policy ?s demo_rollout demo_params of
           Inl e \<Rightarrow> Inl (e, demo_params)
         | Inr L \<Rightarrow>
             (case first_step (rho ?s) adaptive True (set_to_none ?s)
                     (backward (loss_grad demo_policy (map data demo_params)) demo_params) of
                (ps2, old_p) \<Rightarrow>
                  (case pass_losses demo_policy ?s demo_rollout ps2 of
                     Inl e \<Rightarrow> Inl (e, ps2)
                   | Inr L_new \<Rightarrow>
                       Inr (second_step (sgd_step demo_policy) True (set_to_none ?s) old_p
                              (backward (loss_grad demo_policy (map data ps2)) ps2),
                            \<lparr>train_entropy_loss = entropy_loss L,
                             train_policy_loss = policy_loss L,
                             train_value_loss = value_loss L\<rparr>))))"
    and inv: "train demo_policy (?s\<lparr>max_grad_norm := 7\<rparr>) demo_rollout demo_params =
     train demo_policy ?s demo_rollout demo_params"
    by blast+
  have b: "backward (loss_grad demo_policy (map data demo_params)) demo_params =
     [\<lparr>pname = ''value_net.weight'', data = [1], grad = Some [2]\<rparr>]"
    by (simp add: demo_params_def demo_backward accumulate_def)
  have t3: "train demo_policy ?s demo_rollout demo_params =
     Inr (second_step gd_step True True [[1]]
            [\<lparr>pname = ''value_net.weight'', data = [?w], grad = Some [2 * ?w]\<rparr>],
          \<lparr>train_entropy_loss = 0, train_policy_loss = 0, train_value_loss = 1\<rparr>)"
    unfolding sam
    by (simp add: pl b cs os adaptive_def demo_first_step pass_losses_demo demo_backward
        accumulate_def)
  from thm_h ch(1) have hero:
    "train demo_policy ?h demo_rollout demo_params =
        (case pass_losses demo_policy ?h demo_rollout demo_params of
           Inl e \<Rightarrow> Inl (e, demo_params)
         | Inr L \<Rightarrow>
             (case hero_first_pass demo_policy ?h demo_params of
                Inl e \<Rightarrow> Inl e
              | Inr (ps2, old_p, loss_grads) \<Rightarrow>
                  (case hero_second_pass demo_policy ?h demo_rollout ps2 of
                     Inl e \<Rightarrow> Inl (e, ps2)
                   | Inr loss_grads_new \<Rightarrow>
                       (case hero_backward demo_policy ps2 loss_grads loss_grads_new of
                          Inl e \<Rightarrow> Inl (e, ps2)
                        | Inr ps3 \<Rightarrow>
                            (case add_grads ps3 loss_grads_new of
                               Inl e \<Rightarrow> Inl e
                             | Inr ps4 \<Rightarrow>
                                 Inr (second_step (sgd_step demo_policy) True (set_to_none ?h)
                                        old_p ps4,
                                      \<lparr>train_entropy_loss = entropy_loss L,
                                       train_policy_loss = policy_loss L,
                                       train_value_loss = value_loss L\<rparr>))))))"
    by blast
  have t5: "train demo_policy ?h demo_rollout demo_params =
     Inr (second_step gd_step True True [[1]]
            [\<lparr>pname = ''value_net.weight'', data = [?w],
              grad = Some [16 * demo_scale (1 / 20) + 2 * ?w]\<rparr>],
          \<lparr>train_entropy_loss = 0, train_policy_loss = 0, train_value_loss = 1\<rparr>)"
    unfolding hero
    by (simp add: pl ch os demo_hero_first_pass demo_hero_second_pass demo_hero_backward iadd_def)
  have pos: "0 < demo_scale (1 / 20)" by (simp add: demo_scale_def)
  then have t4: "max_grad_norm ?s <
     total_norm [\<lparr>pname = ''value_net.weight'', data = [?w], grad = Some [2 * ?w]\<rparr>]"
    by (simp add: demo_config_def total_norm_def sum_squares_def)
  from pos have t6: "max_grad_norm ?h <
     total_norm [\<lparr>pname = ''value_net.weight'', data = [?w],
                  grad = Some [16 * demo_scale (1 / 20) + 2 * ?w]\<rparr>]"
    by (simp add: demo_config_def total_norm_def sum_squares_def)
  from t1 t2 t3 t4 t5 t6 inv show ?thesis by blast
qed

section \<open>The perturbation radius zero\<close>

lemma zero_plus: "zero_tensor u \<Longrightarrow> length u = length t \<Longrightarrow> map2 (+) u t = t"
proof (induction u arbitrary: t)
  case Nil
  then show ?case by simp
next
  case (Cons x u)
  then show ?case by (cases t) (auto simp: zero_tensor_def)
qed

lemma backward_length [simp]: "length (backward gs ps) = length ps"
  by (induction gs ps rule: backward.induct) simp_all

lemma backward_data [simp]: "map data (backward gs ps) = map data ps"
  by (induction gs ps rule: backward.induct) simp_all

lemma backward_pname [simp]: "map pname (backward gs ps) = map pname ps"
  by (induction gs ps rule: backward.induct) simp_all

lemma zero_grad_data [simp]: "map data (zero_grad tn ps) = map data ps"
  by (simp add: zero_grad_def o_def)

lemma zero_grad_pname [simp]: "map pname (zero_grad tn ps) = map pname ps"
  by (simp add: zero_grad_def o_def)

lemma zero_grad_length [simp]: "length (zero_grad tn ps) = length ps"
  by (simp add: zero_grad_def)

lemma plus_zero: "zero_tensor u \<Longrightarrow> length u = length t \<Longrightarrow> map2 (+) t u = t"
proof (induction u arbitrary: t)
  case Nil
  then show ?case by simp
next
  case (Cons x u)
  then show ?case by (cases t) (auto simp: zero_tensor_def)
qed

lemma perturb_zero:
  "shaped (data p) (grad p) \<Longrightarrow> perturb 0 adp p = p"
proof (cases "grad p")
  case None
  then show ?thesis by (simp add: perturb_def)
next
  case (Some g)
  assume "shaped (data p) (grad p)"
  with Some have len: "length g = length (data p)" by (simp add: shaped_def)
  have l: "length (scaled_grad adp p) = length (data p)"
    using Some len by (simp add: scaled_grad_def)
  have e: "map2 (+) (data p) (map ((*) 0) (scaled_grad adp p)) = data p"
    by (rule plus_zero) (simp_all add: zero_tensor_def l)
  show ?thesis using Some by (simp add: perturb_def e)
qed

lemma first_step_zero:
  assumes "list_all (\<lambda>p. shaped (data p) (grad p)) ps"
  shows "first_step 0 adp True tn ps = (zero_grad tn ps, map data ps)"
proof -
  have "map (perturb 0 adp) ps = ps"
    using assms by (induction ps) (simp_all add: perturb_zero)
  then show ?thesis by (simp add: first_step_def)
qed

lemma backward_nth:
  "i < length ps \<Longrightarrow> i < length gs \<Longrightarrow>
   backward gs ps ! i = (ps ! i)\<lparr>grad := accumulate (grad (ps ! i)) (gs ! i)\<rparr>"
proof (induction gs ps arbitrary: i rule: backward.induct)
  case (3 g gs p ps)
  then show ?case by (cases i) simp_all
qed simp_all

lemma zero_grad_nth:
  "i < length ps \<Longrightarrow> zero_grad tn ps ! i = (ps ! i)\<lparr>grad := zg tn (grad (ps ! i))\<rparr>"
  by (simp add: zero_grad_def zg_def)

lemma zg_cleared:
  "shaped d e \<Longrightarrow> zero_or_none (zg tn e) \<and> shaped d (zg tn e)"
  by (cases e) (simp_all add: zg_def zero_or_none_def shaped_def zero_tensor_def)

lemma accumulate_cleared_Some:
  "zero_or_none e \<Longrightarrow> shaped d e \<Longrightarrow> length t = length d \<Longrightarrow> accumulate e (Some t) = Some t"
  by (cases e) (simp_all add: accumulate_def zero_or_none_def shaped_def zero_plus)

lemma accumulate_shaped:
  "shaped d e \<Longrightarrow> shaped d g \<Longrightarrow> shaped d (accumulate e g)"
  by (cases e; cases g) (simp_all add: accumulate_def shaped_def)

lemma accumulate_zero:
  "zero_or_none e \<Longrightarrow> zero_or_none g \<Longrightarrow> zero_or_none (accumulate e g)"
proof (cases e; cases g)
  fix u t
  assume z: "zero_or_none e" "zero_or_none g" and e: "e = Some u" and g: "g = Some t"
  have "x = 0 \<and> y = 0" if "(x, y) \<in> set (zip u t)" for x y
    using that z e g by (auto simp: zero_or_none_def zero_tensor_def dest: set_zip_leftD set_zip_rightD)
  then have "\<forall>p\<in>set (zip u t). fst p + snd p = 0" by fastforce
  then show ?thesis
    by (simp add: e g accumulate_def zero_or_none_def zero_tensor_def case_prod_unfold)
qed (simp_all add: accumulate_def)

lemma accumulate_sam:
  assumes "zero_or_none e" and "shaped d e" and "shaped d g"
  shows "accumulate (zg tn (accumulate e g)) g = accumulate (zg tn e) g"
proof (cases g)
  case None
  then show ?thesis by (simp add: accumulate_def)
next
  case (Some t)
  with assms(3) have len: "length t = length d" by (simp add: shaped_def)
  have a: "accumulate e (Some t) = Some t"
    using assms(1,2) len by (rule accumulate_cleared_Some)
  have "shaped d (Some t)" using len by (simp add: shaped_def)
  from zg_cleared [OF this, of tn] have l: "accumulate (zg tn (Some t)) (Some t) = Some t"
    using len by (intro accumulate_cleared_Some) simp_all
  from zg_cleared [OF assms(2), of tn] have r: "accumulate (zg tn e) (Some t) = Some t"
    using len by (intro accumulate_cleared_Some) simp_all
  show ?thesis by (simp add: Some a l r)
qed

lemma pass_losses_data:
  "map data ps' = map data ps \<Longrightarrow> pass_losses pol cfg rollout ps' = pass_losses pol cfg rollout ps"
  by (simp add: pass_losses_def)

lemma clone_grads_Inr: "clone_grads ps = Inr lg \<Longrightarrow> map grad ps = map Some lg"
  by (induction ps arbitrary: lg) (auto split: option.splits sum.splits)

lemma autograd_grad_Inr: "autograd_grad gs = Inr ts \<Longrightarrow> gs = map Some ts"
  by (induction gs arbitrary: ts rule: autograd_grad.induct) (auto split: sum.splits)

lemma first_pass_shaped:
  assumes "list_all cleared ps" and "list_all2 shaped (map data ps) gs"
  shows "list_all (\<lambda>p. shaped (data p) (grad p)) (backward gs ps)"
proof -
  have len: "length gs = length ps" using assms(2) by (auto dest: list_all2_lengthD)
  show ?thesis
    unfolding list_all_length
  proof (intro allI impI)
    fix i assume "i < length (backward gs ps)"
    then have i: "i < length ps" by simp
    then have "cleared (ps ! i)" using assms(1) by (simp add: list_all_length)
    moreover have "shaped (data (ps ! i)) (gs ! i)"
      using assms(2) i by (auto simp: list_all2_conv_all_nth)
    ultimately show "shaped (data (backward gs ps ! i)) (grad (backward gs ps ! i))"
      using i len by (simp add: backward_nth cleared_def accumulate_shaped)
  qed
qed

lemma sam_prepare_rho_zero:
  assumes "rho cfg = 0" and "list_all cleared ps"
    and "list_all2 shaped (map data ps) (loss_grad pol (map data ps))"
    and "pass_losses pol cfg rollout ps = Inr L"
  shows "\<exists>ps3 old_p. sam_prepare pol cfg rollout ps = Inr (ps3, old_p) \<and>
           map data ps3 = map data ps \<and> map grad ps3 = map grad (base_grads pol cfg ps)"
proof -
  let ?g = "loss_grad pol (map data ps)"
  let ?tn = "set_to_none cfg"
  let ?ps1 = "backward ?g ps"
  let ?ps2 = "zero_grad ?tn ?ps1"
  let ?ps3 = "backward ?g ?ps2"
  have len: "length ?g = length ps" using assms(3) by (auto dest: list_all2_lengthD)
  have fs: "first_step (rho cfg) adaptive True ?tn ?ps1 = (?ps2, map data ps)"
    using first_step_zero [OF first_pass_shaped [OF assms(2,3)], of adaptive ?tn]
    by (simp add: assms(1))
  have pl: "pass_losses pol cfg rollout ?ps2 = Inr L"
    using assms(4) by (simp add: pass_losses_data [of ?ps2 ps])
  have sp: "sam_prepare pol cfg rollout ps = Inr (?ps3, map data ps)"
    by (simp add: sam_prepare_def Let_def fs pl)
  have "map grad ?ps3 = map grad (base_grads pol cfg ps)"
  proof (rule nth_equalityI)
    show "length (map grad ?ps3) = length (map grad (base_grads pol cfg ps))"
      by (simp add: base_grads_def)
  next
    fix i assume "i < length (map grad ?ps3)"
    then have i: "i < length ps" by simp
    have c: "cleared (ps ! i)" using assms(2) i by (simp add: list_all_length)
    have s: "shaped (data (ps ! i)) (?g ! i)"
      using assms(3) i by (auto simp: list_all2_conv_all_nth)
    show "map grad ?ps3 ! i = map grad (base_grads pol cfg ps) ! i"
      using i len c s
      by (simp add: base_grads_def backward_nth zero_grad_nth cleared_def
          accumulate_sam [of _ "data (ps ! i)"])
  qed
  with sp show ?thesis by simp
qed

lemma mse_loss_grad_same:
  "zero_like a (Some (map (\<lambda>x. lambda_hero * x) (mse_loss_grad a a)))"
  by (auto simp: mse_loss_grad_def zero_like_def zero_or_none_def shaped_def zero_tensor_def
      in_set_zip)

lemma accumulate_zero_like:
  "zero_like d e \<Longrightarrow> zero_like d g \<Longrightarrow> zero_like d (accumulate e g)"
  by (simp add: zero_like_def accumulate_zero accumulate_shaped)

lemma zero_like_None [simp]: "zero_like d None"
  by (simp add: zero_like_def zero_or_none_def shaped_def)

lemma zero_like_length: "length d = length d' \<Longrightarrow> zero_like d g = zero_like d' g"
  by (simp add: zero_like_def shaped_def split: option.splits)

lemma hero_add_same_zero:
  assumes "hero_add h i (ref i) (ref i) = Inr h'"
    and "\<forall>j. zero_like (ref j) (hero_cotangent h j)"
  shows "\<forall>j. zero_like (ref j) (hero_cotangent h' j)"
proof
  fix j
  let ?c = "map (\<lambda>x. lambda_hero * x) (mse_loss_grad (ref i) (ref i))"
  have zc: "zero_like (ref i) (Some ?c)" by (rule mse_loss_grad_same)
  show "zero_like (ref j) (hero_cotangent h' j)"
  proof (cases h)
    case (PyFloat x)
    with assms(1) have "hero_cotangent h' j = (if j = i then Some ?c else None)"
      by (auto simp: hero_add_def Let_def split: sum.splits)
    then show ?thesis using zc by simp
  next
    case (HeroTensor x c)
    with assms(1) have
      "hero_cotangent h' j = (if j = i then accumulate (c i) (Some ?c) else c j)"
      by (auto simp: hero_add_def Let_def split: sum.splits)
    moreover have "zero_like (ref j) (c j)" "zero_like (ref i) (c i)"
      using assms(2) HeroTensor by (auto dest: spec [of _ j] spec [of _ i])
    ultimately show ?thesis using zc by (simp add: accumulate_zero_like)
  qed
qed

lemma hero_outer_same_zero:
  assumes "\<forall>k<length zs. zs ! k = (ref k, ref k)"
  shows "hero_outer k names zs h = Inr h' \<Longrightarrow> \<forall>j. zero_like (ref j) (hero_cotangent h j) \<Longrightarrow>
         \<forall>j. zero_like (ref j) (hero_cotangent h' j)"
proof (induction names arbitrary: k h)
  case Nil
  then show ?case by simp
next
  case (Cons name names)
  show ?case
  proof (cases "weight_filter name \<and> k < length zs")
    case False
    then have "hero_outer (Suc k) names zs h = Inr h'"
      using Cons.prems(1) by (auto simp: hero_inner_nth split: if_splits)
    then show ?thesis using Cons.IH Cons.prems(2) by blast
  next
    case True
    then have eq: "zs ! k = (ref k, ref k)" using assms by simp
    from True Cons.prems(1) obtain h1 where
      h1: "hero_add h k (ref k) (ref k) = Inr h1"
      and rest: "hero_outer (Suc k) names zs h1 = Inr h'"
      by (auto simp: hero_inner_nth eq split: sum.splits)
    from hero_add_same_zero [OF h1 Cons.prems(2)] rest show ?thesis
      using Cons.IH by blast
  qed
qed

lemma hero_loop_same_zero:
  assumes "hero_loop names lg lg = Inr (HeroTensor v cts)"
  shows "zero_like (lg ! j) (cts j)"
proof -
  have "\<forall>k<length (zip lg lg). zip lg lg ! k = (lg ! k, lg ! k)" by simp
  from hero_outer_same_zero [where ref = "\<lambda>k. lg ! k", OF this assms [unfolded hero_loop_def]]
  show ?thesis by simp
qed

lemma hero_prepare_rho_zero:
  assumes rho0: "rho cfg = 0" and cl: "list_all cleared ps"
    and sh: "list_all2 shaped (map data ps) (loss_grad pol (map data ps))"
    and vjp: "\<forall>c. list_all2 zero_like (map data ps) c \<longrightarrow>
               list_all2 zero_like (map data ps) (grad_vjp pol (map data ps) c)"
    and hp: "hero_prepare pol cfg rollout ps = Inr (ps4, old_p)"
  shows "map data ps4 = map data ps \<and> map grad ps4 = map grad (base_grads pol cfg ps)"
proof -
  let ?g = "loss_grad pol (map data ps)"
  let ?tn = "set_to_none cfg"
  let ?ps1 = "backward ?g ps"
  let ?ps2 = "zero_grad ?tn ?ps1"
  have len: "length ?g = length ps" using sh by (auto dest: list_all2_lengthD)
  have fs: "first_step (rho cfg) adaptive True ?tn ?ps1 = (?ps2, map data ps)"
    using first_step_zero [OF first_pass_shaped [OF cl sh], of adaptive ?tn]
    by (simp add: rho0)
  from hp obtain ps2 lg lgn ps3 where
    fp: "hero_first_pass pol cfg ps = Inr (ps2, old_p, lg)" and
    sp: "hero_second_pass pol cfg rollout ps2 = Inr lgn" and
    hb: "hero_backward pol ps2 lg lgn = Inr ps3" and
    ag: "add_grads ps3 lgn = Inr ps4"
    by (auto simp: hero_prepare_def Let_def split: sum.splits prod.splits)
  from fp have cg: "clone_grads ?ps1 = Inr lg" and ps2: "ps2 = ?ps2"
    by (auto simp: hero_first_pass_def Let_def fs split: sum.splits)
  from sp have "autograd_grad (loss_grad pol (map data ps2)) = Inr lgn"
    by (simp add: hero_second_pass_def split: sum.splits)
  then have g: "?g = map Some lgn"
    by (simp add: ps2 autograd_grad_Inr)
  have n: "length lgn = length ps" using len by (simp add: g)
  have t: "length (lgn ! i) = length (data (ps ! i))" if "i < length ps" for i
    using sh that n by (auto simp: list_all2_conv_all_nth g shaped_def)
  have e: "zero_or_none (grad (ps ! i))" "shaped (data (ps ! i)) (grad (ps ! i))"
    if "i < length ps" for i
    using cl that by (simp_all add: list_all_length cleared_def)
  have g1: "grad (?ps1 ! i) = Some (lgn ! i)" if "i < length ps" for i
    using that n by (simp add: backward_nth g accumulate_cleared_Some [OF e t])
  have "map grad ?ps1 = map Some lgn"
    by (rule nth_equalityI) (simp_all add: n g1)
  with clone_grads_Inr [OF cg] have "map Some lg = map Some lgn" by simp
  then have lg: "lg = lgn" by (simp add: inj_map_eq_map)
  from hb obtain v cts where
    hl: "hero_loop (map pname ps2) lgn lgn = Inr (HeroTensor v cts)" and
    ps3: "ps3 = backward (grad_vjp pol (map data ps) (map cts [0..<length lgn])) ps2"
    by (auto simp: hero_backward_def lg ps2 split: sum.splits hero_loss.splits)
  let ?r = "grad_vjp pol (map data ps) (map cts [0..<length lgn])"
  have "list_all2 zero_like (map data ps) (map cts [0..<length lgn])"
    unfolding list_all2_conv_all_nth
  proof (intro conjI allI impI)
    show "length (map data ps) = length (map cts [0..<length lgn])" by (simp add: n)
  next
    fix i assume "i < length (map data ps)"
    then have i: "i < length ps" by simp
    from hero_loop_same_zero [OF hl, of i]
    show "zero_like (map data ps ! i) (map cts [0..<length lgn] ! i)"
      using i n by (simp add: zero_like_length [OF t [OF i]])
  qed
  with vjp have r: "list_all2 zero_like (map data ps) ?r" by blast
  then have lr: "length ?r = length ps" by (auto dest: list_all2_lengthD)
  have ri: "zero_or_none (?r ! i)" "shaped (data (ps ! i)) (?r ! i)" if "i < length ps" for i
    using r that by (auto simp: list_all2_conv_all_nth zero_like_def)
  have z2: "zero_or_none (zg ?tn (Some (lgn ! i))) \<and>
            shaped (data (ps ! i)) (zg ?tn (Some (lgn ! i)))" if "i < length ps" for i
    using t [OF that] by (intro zg_cleared) (simp add: shaped_def)
  have p3: "ps3 ! i =
      (ps ! i)\<lparr>grad := accumulate (zg ?tn (Some (lgn ! i))) (?r ! i)\<rparr>"
    if "i < length ps" for i
    using that lr len g1 [OF that]
    by (simp add: ps3 ps2 backward_nth zero_grad_nth)
  have l3: "length ps3 = length ps" by (simp add: ps3 ps2)
  have l4: "length ps4 = length ps" using add_grads_length [OF ag] l3 by simp
  have p4: "ps4 ! i = (ps ! i)\<lparr>grad := Some (lgn ! i)\<rparr>" if i: "i < length ps" for i
  proof -
    let ?a = "accumulate (zg ?tn (Some (lgn ! i))) (?r ! i)"
    from add_grads_nth [OF ag, of i] i l3 n obtain h s where
      h: "grad (ps3 ! i) = Some h" and s: "iadd h (lgn ! i) = Inr s" and
      q: "ps4 ! i = (ps3 ! i)\<lparr>grad := Some s\<rparr>"
      by auto
    from h have a: "?a = Some h" by (simp add: p3 [OF i])
    have "zero_or_none ?a" using z2 [OF i] ri(1) [OF i] by (simp add: accumulate_zero)
    then have hz: "zero_tensor h" by (simp add: a zero_or_none_def)
    have "shaped (data (ps ! i)) ?a" using z2 [OF i] ri(2) [OF i] by (simp add: accumulate_shaped)
    then have hl: "length h = length (lgn ! i)" by (simp add: a shaped_def t [OF i])
    from iadd_same_length [OF s hl] have "s = lgn ! i" using hz hl by (simp add: zero_plus)
    then show ?thesis by (simp add: q p3 [OF i])
  qed
  have d: "map data ps4 = map data ps"
    by (rule nth_equalityI) (simp_all add: l4 p4)
  have "map grad ps4 = map Some lgn"
    by (rule nth_equalityI) (simp_all add: l4 n p4)
  moreover have "map grad (base_grads pol cfg ps) = map Some lgn"
  proof (rule nth_equalityI)
    show "length (map grad (base_grads pol cfg ps)) = length (map Some lgn)"
      by (simp add: base_grads_def n)
  next
    fix i assume "i < length (map grad (base_grads pol cfg ps))"
    then have i: "i < length ps" by (simp add: base_grads_def)
    from zg_cleared [OF e(2) [OF i], of ?tn]
    have "accumulate (zg ?tn (grad (ps ! i))) (Some (lgn ! i)) = Some (lgn ! i)"
      using t [OF i] by (intro accumulate_cleared_Some) simp_all
    then show "map grad (base_grads pol cfg ps) ! i = map Some lgn ! i"
      using i n by (simp add: base_grads_def backward_nth zero_grad_nth g)
  qed
  ultimately show ?thesis using d by simp
qed

text \<open>
  C3. Let \<open>rho = 0\<close>, let the gradients at entry be cleared (\<^verbatim>\<open>None\<close> or zero), let the
  gradient of the loss have the shapes of the parameters, and let backpropagation through
  the differentiable gradients send zero cotangents to zero gradients (it is linear in
  them). Then \<^verbatim>\<open>first_step\<close> moves no parameter; the SAM branch reaches its descent step,
  at the values of entry and with the gradient that the backward pass of the base branch
  computes (the gradient before the clipping); and whenever the HERO branch reaches its
  descent step, it does so at the values of entry and with that same gradient.
\<close>

theorem rho_zero_gives_base_gradient:
  assumes "rho cfg = 0" and "list_all cleared ps"
    and "list_all2 shaped (map data ps) (loss_grad pol (map data ps))"
    and "\<forall>c. list_all2 zero_like (map data ps) c \<longrightarrow>
               list_all2 zero_like (map data ps) (grad_vjp pol (map data ps) c)"
    and "pass_losses pol cfg rollout ps = Inr L"
  shows "map data (fst (first_step (rho cfg) adaptive True (set_to_none cfg)
                     (backward (loss_grad pol (map data ps)) ps))) = map data ps \<and>
         (\<exists>ps3 old_p. sam_prepare pol cfg rollout ps = Inr (ps3, old_p) \<and>
            map data ps3 = map data ps \<and> map grad ps3 = map grad (base_grads pol cfg ps)) \<and>
         (\<forall>ps4 old_p. hero_prepare pol cfg rollout ps = Inr (ps4, old_p) \<longrightarrow>
            map data ps4 = map data ps \<and> map grad ps4 = map grad (base_grads pol cfg ps))"
proof (intro conjI allI impI)
  show "map data (fst (first_step (rho cfg) adaptive True (set_to_none cfg)
                     (backward (loss_grad pol (map data ps)) ps))) = map data ps"
    using first_step_zero [OF first_pass_shaped [OF assms(2,3)], of adaptive "set_to_none cfg"]
    by (simp add: assms(1))
next
  show "\<exists>ps3 old_p. sam_prepare pol cfg rollout ps = Inr (ps3, old_p) \<and>
            map data ps3 = map data ps \<and> map grad ps3 = map grad (base_grads pol cfg ps)"
    using assms(1,2,3,5) by (rule sam_prepare_rho_zero)
next
  fix ps4 old_p
  assume "hero_prepare pol cfg rollout ps = Inr (ps4, old_p)"
  with assms(1-4) have "map data ps4 = map data ps \<and>
      map grad ps4 = map grad (base_grads pol cfg ps)"
    by (rule hero_prepare_rho_zero)
  then show "map data ps4 = map data ps"
    and "map grad ps4 = map grad (base_grads pol cfg ps)" by simp_all
qed

lemma zero_like_scale: "zero_like d t \<Longrightarrow> zero_like d (map_option (map (\<lambda>x. k * x)) t)"
  by (cases t) (auto simp: zero_like_def zero_or_none_def shaped_def zero_tensor_def)

theorem rho_zero_gives_base_gradient_witness:
  "sam_prepare demo_policy (demo_config ''SAM'' 0) demo_rollout demo_params =
     Inr ([\<lparr>pname = ''value_net.weight'', data = [1], grad = Some [2]\<rparr>], [[1]]) \<and>
   hero_prepare demo_policy (demo_config ''HERO'' 0) demo_rollout demo_params =
     Inr ([\<lparr>pname = ''value_net.weight'', data = [1], grad = Some [2]\<rparr>], [[1]]) \<and>
   base_grads demo_policy (demo_config ''HERO'' 0) demo_params =
     [\<lparr>pname = ''value_net.weight'', data = [1], grad = Some [2]\<rparr>]"
proof -
  let ?cfg = "demo_config ''HERO'' 0"
  let ?p = "[\<lparr>pname = ''value_net.weight'', data = [1], grad = Some [2 :: real]\<rparr>]"
  have a1: "rho ?cfg = 0" by (simp add: demo_config_def)
  have a2: "list_all cleared demo_params"
    by (simp add: demo_params_def cleared_def zero_or_none_def shaped_def)
  have a3: "list_all2 shaped (map data demo_params) (loss_grad demo_policy (map data demo_params))"
    by (simp add: demo_params_def demo_policy_def shaped_def)
  have a4: "\<forall>c. list_all2 zero_like (map data demo_params) c \<longrightarrow>
      list_all2 zero_like (map data demo_params) (grad_vjp demo_policy (map data demo_params) c)"
  proof (intro allI impI)
    fix c assume "list_all2 zero_like (map data demo_params) c"
    then obtain t where c: "c = [t]" and t: "zero_like [1] t"
      by (auto simp: list_all2_Cons1 demo_params_def)
    show "list_all2 zero_like (map data demo_params)
        (grad_vjp demo_policy (map data demo_params) c)"
      using zero_like_scale [OF t, of 2] by (simp add: c demo_params_def demo_policy_def)
  qed
  have a5: "pass_losses demo_policy ?cfg demo_rollout demo_params =
      Inr \<lparr>policy_loss = 0, value_loss = 1\<^sup>2, entropy_loss = 0, loss = 1\<^sup>2\<rparr>"
    unfolding demo_params_def by (rule pass_losses_demo)
  have s0: "demo_scale 0 = 0" by (simp add: demo_scale_def)
  have hp: "hero_prepare demo_policy ?cfg demo_rollout demo_params = Inr (?p, [[1]])"
    by (simp add: demo_hero_prepare s0)
  have sp: "sam_prepare demo_policy (demo_config ''SAM'' 0) demo_rollout demo_params =
      Inr (?p, [[1]])"
    by (simp add: demo_sam_prepare s0)
  from rho_zero_gives_base_gradient [OF a1 a2 a3 a4 a5] hp
  have "map grad ?p = map grad (base_grads demo_policy ?cfg demo_params)" by blast
  moreover have "map data (base_grads demo_policy ?cfg demo_params) = map data ?p"
    "map pname (base_grads demo_policy ?cfg demo_params) = map pname ?p"
    by (simp_all add: base_grads_def demo_params_def)
  ultimately have "base_grads demo_policy ?cfg demo_params = ?p"
    by (simp add: base_grads_def demo_base_grads)
  with hp sp show ?thesis by simp
qed

end
